theory Spec2Isabelle
  imports Complex_Main "HOL-Library.AList"
begin

chapter \<open>The embedding\<close>

section \<open>Numeric helpers of the transform loop\<close>

text \<open>
  The source computes on Python floats. They are modelled as \<^typ>\<open>real\<close>: every
  statement below is about exact arithmetic, and rounding of the binary floating-point
  format is outside the model. Python exceptions are values of \<open>py_error\<close>.
\<close>

datatype py_error =
  ZeroDivisionError | AttributeError | TypeError | ValueError | IndexError | KeyError | PygameError

text \<open>\<^verbatim>\<open>clamp(v, lo, hi)\<close>: \<^verbatim>\<open>lo if v < lo else hi if v > hi else v\<close>.\<close>

definition clamp :: "real \<Rightarrow> real \<Rightarrow> real \<Rightarrow> real" where
  "clamp v lo hi = (if v < lo then lo else if v > hi then hi else v)"

text \<open>\<^verbatim>\<open>math.hypot\<close> of the standard library: the Euclidean norm.\<close>

definition hypot :: "real \<Rightarrow> real \<Rightarrow> real" where
  "hypot x y = sqrt (x\<^sup>2 + y\<^sup>2)"

text \<open>
  \<^verbatim>\<open>math.atan2(y, x)\<close> of the standard library: the angle of the point \<open>(x, y)\<close>, in
  \<open>(-\<pi>, \<pi>]\<close>, by quadrant.
\<close>

definition atan2 :: "real \<Rightarrow> real \<Rightarrow> real" where
  "atan2 y x =
     (if 0 < x then arctan (y / x)
      else if x < 0 then (if 0 \<le> y then arctan (y / x) + pi else arctan (y / x) - pi)
      else if 0 < y then pi / 2
      else if y < 0 then - (pi / 2)
      else 0)"

text \<open>Python's float division raises on a zero divisor.\<close>

definition py_div :: "real \<Rightarrow> real \<Rightarrow> py_error + real" where
  "py_div a b = (if b = 0 then Inl ZeroDivisionError else Inr (a / b))"

text \<open>
  \<^verbatim>\<open>apply_deadzone(x, y, dz)\<close>. Both divisions of the source are kept as fallible
  operations, so that reaching one with a zero divisor is the value \<open>Inl ZeroDivisionError\<close>.
\<close>

definition apply_deadzone :: "real \<Rightarrow> real \<Rightarrow> real \<Rightarrow> py_error + (real \<times> real)" where
  "apply_deadzone x y dz =
     (let mag = hypot x y in
      if mag < dz \<or> mag = 0 then Inr (0, 0)
      else
        (case py_div (mag - dz) (1 - dz) of
           Inl e \<Rightarrow> Inl e
         | Inr new_mag0 \<Rightarrow>
             (let new_mag = clamp new_mag0 0 1 in
              case py_div new_mag mag of
                Inl e \<Rightarrow> Inl e
              | Inr scale \<Rightarrow> Inr (x * scale, y * scale))))"

text \<open>
  Python 3 \<^verbatim>\<open>round(x)\<close> on a float: the nearest integer, a tie going to the even
  neighbour. The source always wraps it as \<^verbatim>\<open>int(round(...))\<close>.
\<close>

definition py_round :: "real \<Rightarrow> int" where
  "py_round x =
     (let f = \<lfloor>x\<rfloor>; d = x - of_int f in
      if d < 1 / 2 then f
      else if 1 / 2 < d then f + 1
      else if even f then f else f + 1)"

text \<open>\<^verbatim>\<open>axis_to_trigger_0_255(v, mode)\<close>.\<close>

definition axis_to_trigger_0_255 :: "real \<Rightarrow> string \<Rightarrow> int" where
  "axis_to_trigger_0_255 v mode =
     (let t = (if mode = ''minus1_to_1'' then (v + 1) * 0.5
               else if mode = ''zero_to_1'' then v
               else if mode = ''one_to_minus1'' then (1 - v) * 0.5
               else (v + 1) * 0.5);
          t = clamp t 0 1
      in py_round (t * 255))"

text \<open>
  The value \<open>t\<close> that \<^verbatim>\<open>axis_to_trigger_0_255\<close> computes before clamping: the
  trigger's reading normalized by its calibrated mode.
\<close>

definition trigger_norm :: "real \<Rightarrow> string \<Rightarrow> real" where
  "trigger_norm v mode =
     (if mode = ''minus1_to_1'' then (v + 1) * 0.5
      else if mode = ''zero_to_1'' then v
      else if mode = ''one_to_minus1'' then (1 - v) * 0.5
      else (v + 1) * 0.5)"

text \<open>
  The classification at the end of \<^verbatim>\<open>detect_trigger_axis\<close>: the encoding of a trigger
  axis, from the value \<open>r\<close> it rests at.
\<close>

definition trigger_mode_of_rest :: "real \<Rightarrow> string" where
  "trigger_mode_of_rest r =
     (if r \<le> - 0.7 then ''minus1_to_1''
      else if r \<ge> 0.7 then ''one_to_minus1''
      else ''zero_to_1'')"

section \<open>Configuration\<close>

text \<open>
  Values of the persisted JSON document, as \<^verbatim>\<open>json.load\<close> returns them. A Python
  \<^verbatim>\<open>dict\<close> is an association list: insertion order is kept, \<open>map_of\<close> looks a key
  up and \<open>AList.update\<close> stores one.
\<close>

datatype jvalue =
    JNull
  | JBool bool
  | JInt int
  | JFloat real
  | JStr string
  | JArr "jvalue list"
  | JObj "(string \<times> jvalue) list"

type_synonym py_dict = "(string \<times> jvalue) list"

text \<open>The dataclass \<^verbatim>\<open>Config\<close>, with the types its fields are declared with.\<close>

record Config =
  rotation_speed_deg_per_sec :: real
  invert_rotation :: bool
  deadzone_left :: real
  deadzone_right :: real
  wrap_yaw :: bool
  invert_left_y :: bool
  invert_right_y :: bool
  output_smoothing :: real
  joystick_index :: int
  left_x_axis :: int
  left_y_axis :: int
  right_x_axis :: int
  right_y_axis :: int
  poll_hz :: int
  mouse_enabled :: bool
  mouse_speed_px_per_sec :: real
  mouse_deadzone :: real
  mouse_accel :: real
  mouse_invert_y :: bool
  mouse_activation_mode :: string
  mouse_hold_key :: string
  calibrated :: bool
  calibration :: py_dict

text \<open>\<^verbatim>\<open>Config()\<close>: every field at its default, taken from \<^verbatim>\<open>RESET_DEFAULTS\<close>.\<close>

definition default_config :: Config where
  "default_config =
     \<lparr> rotation_speed_deg_per_sec = 180, invert_rotation = True,
       deadzone_left = 0.12, deadzone_right = 0.1, wrap_yaw = True,
       invert_left_y = False, invert_right_y = False, output_smoothing = 0,
       joystick_index = 0, left_x_axis = 0, left_y_axis = 1, right_x_axis = 2,
       right_y_axis = 3, poll_hz = 240, mouse_enabled = True,
       mouse_speed_px_per_sec = 1200, mouse_deadzone = 0.18, mouse_accel = 1.35,
       mouse_invert_y = False, mouse_activation_mode = ''always'',
       mouse_hold_key = ''r3'', calibrated = False, calibration = [] \<rparr>"

text \<open>\<^verbatim>\<open>cfg.__dict__\<close>: the attribute dictionary that \<^verbatim>\<open>save_config\<close> serializes.\<close>

definition config_dict :: "Config \<Rightarrow> py_dict" where
  "config_dict cfg =
     [ (''rotation_speed_deg_per_sec'', JFloat (rotation_speed_deg_per_sec cfg)),
       (''invert_rotation'', JBool (invert_rotation cfg)),
       (''deadzone_left'', JFloat (deadzone_left cfg)),
       (''deadzone_right'', JFloat (deadzone_right cfg)),
       (''wrap_yaw'', JBool (wrap_yaw cfg)),
       (''invert_left_y'', JBool (invert_left_y cfg)),
       (''invert_right_y'', JBool (invert_right_y cfg)),
       (''output_smoothing'', JFloat (output_smoothing cfg)),
       (''joystick_index'', JInt (joystick_index cfg)),
       (''left_x_axis'', JInt (left_x_axis cfg)),
       (''left_y_axis'', JInt (left_y_axis cfg)),
       (''right_x_axis'', JInt (right_x_axis cfg)),
       (''right_y_axis'', JInt (right_y_axis cfg)),
       (''poll_hz'', JInt (poll_hz cfg)),
       (''mouse_enabled'', JBool (mouse_enabled cfg)),
       (''mouse_speed_px_per_sec'', JFloat (mouse_speed_px_per_sec cfg)),
       (''mouse_deadzone'', JFloat (mouse_deadzone cfg)),
       (''mouse_accel'', JFloat (mouse_accel cfg)),
       (''mouse_invert_y'', JBool (mouse_invert_y cfg)),
       (''mouse_activation_mode'', JStr (mouse_activation_mode cfg)),
       (''mouse_hold_key'', JStr (mouse_hold_key cfg)),
       (''calibrated'', JBool (calibrated cfg)),
       (''calibration'', JObj (calibration cfg)) ]"

text \<open>
  \<^verbatim>\<open>save_config(path, cfg)\<close> overwrites the document with the serialized attribute
  dictionary. The serializer \<^verbatim>\<open>json.dump\<close> is a parameter \<open>dumps\<close> of every
  operation that writes; the document is \<open>None\<close> while the file cannot be read.
\<close>

definition save_config :: "(py_dict \<Rightarrow> string) \<Rightarrow> py_dict \<Rightarrow> string option" where
  "save_config dumps attrs = Some (dumps attrs)"

section \<open>Shared state\<close>

text \<open>\<^verbatim>\<open>d.get(k, default)\<close> on a dictionary.\<close>

definition dict_get :: "py_dict \<Rightarrow> string \<Rightarrow> jvalue \<Rightarrow> jvalue" where
  "dict_get d k dflt = (case map_of d k of None \<Rightarrow> dflt | Some v \<Rightarrow> v)"

text \<open>
  \<^verbatim>\<open>SharedState\<close> reads and writes the configuration object by attribute name
  (\<^verbatim>\<open>hasattr\<close>, \<^verbatim>\<open>setattr\<close>, \<^verbatim>\<open>__dict__\<close>) with values of any JSON type, so the
  store holds the object as its attribute dictionary. The lock only serializes the two
  threads and has no sequential effect.

  The keywords of \<^verbatim>\<open>update_and_save\<close> are written in the source: every call passes
  names of fields of \<^verbatim>\<open>Config\<close> (the names of the GUI variables, the keys of
  \<^verbatim>\<open>RESET_DEFAULTS\<close>, \<^verbatim>\<open>calibrated\<close> and \<^verbatim>\<open>calibration\<close>). On a name that is not
  inherited from the class, \<^verbatim>\<open>hasattr\<close> is membership among the instance's attributes
  and \<^verbatim>\<open>setattr\<close> stores the value; \<open>hasattr\<close>, \<open>setattr\<close> and \<open>overlay_items\<close>
  are the two functions and the loop on such names. The loop over a document read from
  disk, whose keys are arbitrary, is \<open>overlay_document\<close> below.
\<close>

definition hasattr :: "py_dict \<Rightarrow> string \<Rightarrow> bool" where
  "hasattr attrs k = (map_of attrs k \<noteq> None)"

definition setattr :: "py_dict \<Rightarrow> string \<Rightarrow> jvalue \<Rightarrow> py_dict" where
  "setattr attrs k v = AList.update k v attrs"

text \<open>
  The loop of \<^verbatim>\<open>update_and_save\<close>:
  \<^verbatim>\<open>for k, v in kwargs.items(): if hasattr(self.cfg, k): setattr(self.cfg, k, v)\<close>.
\<close>

fun overlay_items :: "py_dict \<Rightarrow> py_dict \<Rightarrow> py_dict" where
  "overlay_items attrs [] = attrs"
| "overlay_items attrs ((k, v) # items) =
     overlay_items (if hasattr attrs k then setattr attrs k v else attrs) items"

record SharedState =
  self_cfg :: py_dict
  last_saved_cfg_json :: "string option"

text \<open>\<^verbatim>\<open>SharedState(cfg)\<close>: nothing is cached yet.\<close>

definition new_state :: "Config \<Rightarrow> SharedState" where
  "new_state cfg = \<lparr> self_cfg = config_dict cfg, last_saved_cfg_json = None \<rparr>"

text \<open>
  \<^verbatim>\<open>update_and_save(**kwargs)\<close>: the new state and the document written. The cached text
  is not assigned here.
\<close>

definition update_and_save ::
  "(py_dict \<Rightarrow> string) \<Rightarrow> py_dict \<Rightarrow> SharedState \<Rightarrow> SharedState \<times> string option" where
  "update_and_save dumps kwargs st =
     (let st = st\<lparr>self_cfg := overlay_items (self_cfg st) kwargs\<rparr>
      in (st, save_config dumps (self_cfg st)))"

text \<open>\<^verbatim>\<open>mark_saved()\<close> caches what the file holds now, or \<open>None\<close> when it cannot be read.\<close>

definition mark_saved :: "SharedState \<Rightarrow> string option \<Rightarrow> SharedState" where
  "mark_saved st disk =
     (case disk of
        Some txt \<Rightarrow> st\<lparr>last_saved_cfg_json := Some txt\<rparr>
      | None \<Rightarrow> st\<lparr>last_saved_cfg_json := None\<rparr>)"

text \<open>
  The same loop over a document read from disk, whose keys are arbitrary strings. On an
  arbitrary name, \<^verbatim>\<open>hasattr(cfg, k)\<close> holds for the instance's attributes and also for
  every name that resolves on the class. These are the parameter \<open>inherited\<close> (the
  methods and special attributes of \<^verbatim>\<open>object\<close> and of the dataclass, such as
  \<^verbatim>\<open>__doc__\<close>, \<^verbatim>\<open>__eq__\<close> or \<^verbatim>\<open>__module__\<close>, and the class-level defaults of the
  fields) and the three data descriptors of every instance, whose assignment is special:
  \<^verbatim>\<open>__class__\<close> only takes a class and \<^verbatim>\<open>__dict__\<close> only a dictionary (a
  \<^verbatim>\<open>TypeError\<close> for any other value, and no JSON value is a class), and
  \<^verbatim>\<open>__weakref__\<close> is not writable (an \<^verbatim>\<open>AttributeError\<close>). Assigning a dictionary to
  \<^verbatim>\<open>__dict__\<close> replaces all instance attributes; assigning to any other name stores
  the value in the attribute dictionary, adding the name when it is not there.
\<close>

definition py_hasattr :: "(string \<Rightarrow> bool) \<Rightarrow> py_dict \<Rightarrow> string \<Rightarrow> bool" where
  "py_hasattr inherited attrs k =
     (map_of attrs k \<noteq> None \<or> inherited k
      \<or> k = ''__class__'' \<or> k = ''__dict__'' \<or> k = ''__weakref__'')"

definition py_setattr :: "py_dict \<Rightarrow> string \<Rightarrow> jvalue \<Rightarrow> py_error + py_dict" where
  "py_setattr attrs k v =
     (if k = ''__class__'' then Inl TypeError
      else if k = ''__dict__'' then (case v of JObj d \<Rightarrow> Inr d | _ \<Rightarrow> Inl TypeError)
      else if k = ''__weakref__'' then Inl AttributeError
      else Inr (AList.update k v attrs))"

text \<open>
  \<^verbatim>\<open>for k, v in data.items(): if hasattr(self.cfg, k): setattr(self.cfg, k, v)\<close>:
  the attribute dictionary when the loop ends, and the exception that ended it, if any.
  The assignments made before an exception stay.
\<close>

fun overlay_document ::
  "(string \<Rightarrow> bool) \<Rightarrow> py_dict \<Rightarrow> py_dict \<Rightarrow> py_dict \<times> py_error option" where
  "overlay_document inherited attrs [] = (attrs, None)"
| "overlay_document inherited attrs ((k, v) # items) =
     (if py_hasattr inherited attrs k then
        (case py_setattr attrs k v of
           Inl e \<Rightarrow> (attrs, Some e)
         | Inr attrs' \<Rightarrow> overlay_document inherited attrs' items)
      else overlay_document inherited attrs items)"

text \<open>
  \<^verbatim>\<open>maybe_reload_from_disk()\<close>: the state it leaves and the exception it raises, if
  any. The parser \<^verbatim>\<open>json.loads\<close> is the parameter \<open>loads\<close>, \<open>None\<close> where it raises.
  A document that parses to something other than an object has no \<^verbatim>\<open>items\<close>: the call
  raises outside both \<^verbatim>\<open>try\<close> blocks. The cached text is assigned after the loop, so
  not when the loop raises.
\<close>

definition maybe_reload_from_disk ::
  "(string \<Rightarrow> bool) \<Rightarrow> (string \<Rightarrow> jvalue option) \<Rightarrow> SharedState \<Rightarrow> string option
     \<Rightarrow> SharedState \<times> py_error option" where
  "maybe_reload_from_disk inherited loads st disk =
     (case disk of
        None \<Rightarrow> (st, None)
      | Some txt \<Rightarrow>
          if Some txt = last_saved_cfg_json st then (st, None)
          else
            (case loads txt of
               None \<Rightarrow> (st, None)
             | Some data \<Rightarrow>
                 (case data of
                    JObj items \<Rightarrow>
                      (case overlay_document inherited (self_cfg st) items of
                         (attrs, None) \<Rightarrow>
                           (st\<lparr>self_cfg := attrs, last_saved_cfg_json := Some txt\<rparr>, None)
                       | (attrs, Some e) \<Rightarrow> (st\<lparr>self_cfg := attrs\<rparr>, Some e))
                  | _ \<Rightarrow> (st, Some AttributeError))))"

text \<open>
  A stand-in serializer and a stand-in parser, used only to state closed examples; the
  theorems hold for every serializer and parser.
\<close>

fun demo_value :: "jvalue \<Rightarrow> string" where
  "demo_value JNull = ''null''"
| "demo_value (JBool b) = (if b then ''true'' else ''false'')"
| "demo_value (JStr s) = s"
| "demo_value v = ''?''"

definition demo_dumps :: "py_dict \<Rightarrow> string" where
  "demo_dumps attrs = concat (map (\<lambda>(k, v). k @ '':'' @ demo_value v @ '';'') attrs)"

definition demo_loads :: "string \<Rightarrow> jvalue option" where
  "demo_loads txt =
     (if txt = ''{wrap_yaw: false, colour: red}''
      then Some (JObj [(''wrap_yaw'', JBool False), (''colour'', JStr ''red'')])
      else if txt = ''{wrap_yaw: false, __class__: 1, poll_hz: 60}''
      then Some (JObj [(''wrap_yaw'', JBool False), (''__class__'', JInt 1), (''poll_hz'', JInt 60)])
      else if txt = ''{__doc__: x}''
      then Some (JObj [(''__doc__'', JStr ''x'')])
      else if txt = ''[1]''
      then Some (JArr [JInt 1])
      else None)"

section \<open>Reading calibrated controls\<close>

text \<open>
  The state of the physical device as the last \<^verbatim>\<open>pygame.event.pump()\<close> left it.
  \<^verbatim>\<open>get_button\<close> and \<^verbatim>\<open>get_axis\<close> raise \<^verbatim>\<open>pygame.error\<close> on an index out of range.
\<close>

record joystick =
  js_buttons :: "bool list"
  js_axes :: "real list"
  js_hats :: "(int \<times> int) list"

definition get_button :: "joystick \<Rightarrow> int \<Rightarrow> py_error + bool" where
  "get_button js i =
     (if 0 \<le> i \<and> nat i < length (js_buttons js) then Inr (js_buttons js ! nat i)
      else Inl PygameError)"

definition get_axis :: "joystick \<Rightarrow> int \<Rightarrow> py_error + real" where
  "get_axis js i =
     (if 0 \<le> i \<and> nat i < length (js_axes js) then Inr (js_axes js ! nat i)
      else Inl PygameError)"

text \<open>
  The builtin \<^verbatim>\<open>int(v)\<close> on a JSON value: truncation toward zero on a float,
  \<^verbatim>\<open>TypeError\<close> on null, a list or a dict. Its parsing of a \<^verbatim>\<open>str\<close> is the parameter
  \<open>int_of_str\<close>, \<open>None\<close> where it raises \<^verbatim>\<open>ValueError\<close>.
\<close>

definition py_int :: "(string \<Rightarrow> int option) \<Rightarrow> jvalue \<Rightarrow> py_error + int" where
  "py_int int_of_str v =
     (case v of
        JInt i \<Rightarrow> Inr i
      | JBool b \<Rightarrow> Inr (if b then 1 else 0)
      | JFloat r \<Rightarrow> Inr (if 0 \<le> r then \<lfloor>r\<rfloor> else \<lceil>r\<rceil>)
      | JStr s \<Rightarrow> (case int_of_str s of Some i \<Rightarrow> Inr i | None \<Rightarrow> Inl ValueError)
      | _ \<Rightarrow> Inl TypeError)"

text \<open>
  The builtin \<^verbatim>\<open>str(v)\<close>, used only to compare with the three mode names: the printed
  form of a value that is not a \<^verbatim>\<open>str\<close> is none of them, and is kept as one fixed text.
\<close>

definition py_str :: "jvalue \<Rightarrow> string" where
  "py_str v = (case v of JStr s \<Rightarrow> s | _ \<Rightarrow> ''<not a str>'')"

text \<open>
  \<^verbatim>\<open>read_cal_button(js, cal, key)\<close> and \<^verbatim>\<open>read_cal_trigger(js, cal, key)\<close>. A binding
  that is not a dict has no \<^verbatim>\<open>get\<close>: \<^verbatim>\<open>AttributeError\<close>. The conversions of the index
  stand before the \<^verbatim>\<open>try\<close>, so their errors propagate; an error of the device read is
  caught.
\<close>

definition read_cal_button ::
  "(string \<Rightarrow> int option) \<Rightarrow> joystick \<Rightarrow> py_dict \<Rightarrow> string \<Rightarrow> py_error + bool" where
  "read_cal_button int_of_str js cal key =
     (case dict_get cal key (JObj []) of
        JObj info \<Rightarrow>
          if map_of info ''type'' \<noteq> Some (JStr ''button'') then Inr False
          else
            (case py_int int_of_str (dict_get info ''index'' (JInt (- 1))) of
               Inl e \<Rightarrow> Inl e
             | Inr idx \<Rightarrow>
                 if idx < 0 then Inr False
                 else (case get_button js idx of Inl e \<Rightarrow> Inr False | Inr b \<Rightarrow> Inr b))
      | _ \<Rightarrow> Inl AttributeError)"

definition read_cal_trigger ::
  "(string \<Rightarrow> int option) \<Rightarrow> joystick \<Rightarrow> py_dict \<Rightarrow> string \<Rightarrow> py_error + int" where
  "read_cal_trigger int_of_str js cal key =
     (case dict_get cal key (JObj []) of
        JObj info \<Rightarrow>
          if map_of info ''type'' \<noteq> Some (JStr ''axis'') then Inr 0
          else
            (case py_int int_of_str (dict_get info ''index'' (JInt (- 1))) of
               Inl e \<Rightarrow> Inl e
             | Inr ai \<Rightarrow>
                 (let mode = py_str (dict_get info ''mode'' (JStr ''minus1_to_1'')) in
                  if ai < 0 then Inr 0
                  else (case get_axis js ai of
                          Inl e \<Rightarrow> Inr 0
                        | Inr v \<Rightarrow> Inr (axis_to_trigger_0_255 v mode))))
      | _ \<Rightarrow> Inl AttributeError)"

section \<open>Calibration wizard\<close>

text \<open>
  The wizard blocks on the operator. Each \<^verbatim>\<open>pygame.event.pump()\<close> takes the next event
  of a finite stream: the device state it exposes, or the operator's interrupt
  (\<^verbatim>\<open>KeyboardInterrupt\<close>), which the model delivers at the pumps. Every device read of
  the wizard follows a pump of the same loop iteration. A probe returns its value and
  the events left; or it is cancelled by an interrupt; or it is still blocked when the
  stream ends; or another exception leaves it.
\<close>

datatype event = Interrupt | Pump joystick

datatype 'a outcome = Done 'a "event list" | Cancelled | Blocked | Raised py_error

text \<open>Sequencing of two blocking steps: an exception of the first skips the second.\<close>

definition seq :: "'a outcome \<Rightarrow> ('a \<Rightarrow> event list \<Rightarrow> 'b outcome) \<Rightarrow> 'b outcome" where
  "seq m f =
     (case m of
        Done a evs \<Rightarrow> f a evs
      | Cancelled \<Rightarrow> Cancelled
      | Blocked \<Rightarrow> Blocked
      | Raised e \<Rightarrow> Raised e)"

text \<open>\<^verbatim>\<open>any_button_pressed(js)\<close>: an exception of a read counts as pressed.\<close>

definition any_button_pressed :: "joystick \<Rightarrow> bool" where
  "any_button_pressed js =
     list_ex (\<lambda>i. case get_button js (int i) of Inl e \<Rightarrow> True | Inr b \<Rightarrow> b)
       [0..<length (js_buttons js)]"

text \<open>\<^verbatim>\<open>wait_for_buttons_released(js)\<close>.\<close>

fun wait_for_buttons_released :: "event list \<Rightarrow> unit outcome" where
  "wait_for_buttons_released [] = Blocked"
| "wait_for_buttons_released (Interrupt # evs) = Cancelled"
| "wait_for_buttons_released (Pump js # evs) =
     (if \<not> any_button_pressed js then Done () evs else wait_for_buttons_released evs)"

text \<open>\<^verbatim>\<open>detect_first_button_press(js)\<close>: the lowest pressed index wins.\<close>

fun detect_first_button_press :: "event list \<Rightarrow> int outcome" where
  "detect_first_button_press [] = Blocked"
| "detect_first_button_press (Interrupt # evs) = Cancelled"
| "detect_first_button_press (Pump js # evs) =
     (case find (\<lambda>i. case get_button js (int i) of Inl e \<Rightarrow> False | Inr b \<Rightarrow> b)
             [0..<length (js_buttons js)] of
        Some i \<Rightarrow> Done (int i) evs
      | None \<Rightarrow> detect_first_button_press evs)"

text \<open>\<^verbatim>\<open>js.get_hat(i)\<close> and \<^verbatim>\<open>detect_hat_direction(js)\<close>.\<close>

definition get_hat :: "joystick \<Rightarrow> int \<Rightarrow> py_error + (int \<times> int)" where
  "get_hat js i =
     (if 0 \<le> i \<and> nat i < length (js_hats js) then Inr (js_hats js ! nat i)
      else Inl PygameError)"

fun detect_hat_direction :: "event list \<Rightarrow> (int \<times> int) outcome" where
  "detect_hat_direction [] = Blocked"
| "detect_hat_direction (Interrupt # evs) = Cancelled"
| "detect_hat_direction (Pump js # evs) =
     (if length (js_hats js) \<le> 0 then detect_hat_direction evs
      else
        (case get_hat js 0 of
           Inl e \<Rightarrow> Raised e
         | Inr (hx, hy) \<Rightarrow>
             if hx \<noteq> 0 \<or> hy \<noteq> 0 then Done (hx, hy) evs else detect_hat_direction evs))"

text \<open>
  \<^verbatim>\<open>max(range(len(deltas)), key=lambda i: deltas[i]) if deltas else -1\<close>: the first
  index of a maximal delta.
\<close>

definition best_index :: "real list \<Rightarrow> int" where
  "best_index deltas =
     (if deltas = [] then - 1
      else int (fold (\<lambda>i best. if deltas ! i > deltas ! best then i else best)
                  [1..<length deltas] 0))"

text \<open>
  \<^verbatim>\<open>detect_trigger_axis(js, min_delta)\<close>: the first pump samples the rest values, the
  loop polls for a deviation. \<^verbatim>\<open>rest[i]\<close> raises when the device reports more axes than
  were sampled at rest.
\<close>

fun detect_trigger_loop ::
  "real \<Rightarrow> real list \<Rightarrow> event list \<Rightarrow> (int \<times> string \<times> real) outcome" where
  "detect_trigger_loop min_delta rest [] = Blocked"
| "detect_trigger_loop min_delta rest (Interrupt # evs) = Cancelled"
| "detect_trigger_loop min_delta rest (Pump js # evs) =
     (let cur = js_axes js in
      if length rest < length cur then Raised IndexError
      else
        (let deltas = map (\<lambda>i. \<bar>cur ! i - rest ! i\<bar>) [0..<length cur];
             best_i = best_index deltas;
             best_d = (if best_i \<ge> 0 then deltas ! nat best_i else 0)
         in if best_i \<ge> 0 \<and> best_d \<ge> min_delta
            then Done (best_i, trigger_mode_of_rest (rest ! nat best_i), rest ! nat best_i) evs
            else detect_trigger_loop min_delta rest evs))"

definition detect_trigger_axis :: "real \<Rightarrow> event list \<Rightarrow> (int \<times> string \<times> real) outcome" where
  "detect_trigger_axis min_delta evs =
     (case evs of
        [] \<Rightarrow> Blocked
      | Interrupt # evs \<Rightarrow> Cancelled
      | Pump js # evs \<Rightarrow> detect_trigger_loop min_delta (js_axes js) evs)"

text \<open>\<^verbatim>\<open>wait_for_axis_near(js, axis_index, rest_value, eps)\<close>.\<close>

fun wait_for_axis_near :: "int \<Rightarrow> real \<Rightarrow> real \<Rightarrow> event list \<Rightarrow> unit outcome" where
  "wait_for_axis_near axis_index rest_value eps [] = Blocked"
| "wait_for_axis_near axis_index rest_value eps (Interrupt # evs) = Cancelled"
| "wait_for_axis_near axis_index rest_value eps (Pump js # evs) =
     (case get_axis js axis_index of
        Inl e \<Rightarrow> wait_for_axis_near axis_index rest_value eps evs
      | Inr v \<Rightarrow>
          if \<bar>v - rest_value\<bar> \<le> eps \<and> \<not> any_button_pressed js then Done () evs
          else wait_for_axis_near axis_index rest_value eps evs)"

text \<open>\<^verbatim>\<open>detect_axis_by_moving(js, min_delta)\<close>.\<close>

fun detect_axis_loop ::
  "real \<Rightarrow> real list \<Rightarrow> event list \<Rightarrow> (int \<times> int \<times> real) outcome" where
  "detect_axis_loop min_delta rest [] = Blocked"
| "detect_axis_loop min_delta rest (Interrupt # evs) = Cancelled"
| "detect_axis_loop min_delta rest (Pump js # evs) =
     (let cur = js_axes js in
      if length rest < length cur then Raised IndexError
      else
        (let deltas = map (\<lambda>i. \<bar>cur ! i - rest ! i\<bar>) [0..<length cur];
             best_i = best_index deltas;
             best_d = (if best_i \<ge> 0 then deltas ! nat best_i else 0)
         in if best_i \<ge> 0 \<and> best_d \<ge> min_delta
            then Done (best_i,
                       (if cur ! nat best_i - rest ! nat best_i > 0 then 1 else - 1),
                       rest ! nat best_i) evs
            else detect_axis_loop min_delta rest evs))"

definition detect_axis_by_moving :: "real \<Rightarrow> event list \<Rightarrow> (int \<times> int \<times> real) outcome" where
  "detect_axis_by_moving min_delta evs =
     (case evs of
        [] \<Rightarrow> Blocked
      | Interrupt # evs \<Rightarrow> Cancelled
      | Pump js # evs \<Rightarrow> detect_axis_loop min_delta (js_axes js) evs)"

text \<open>
  \<^verbatim>\<open>calibrate_sticks(js, cfg, cal)\<close>: the loop over the four prompts, then the
  assignments to the configuration and to \<^verbatim>\<open>cal["stick_axes"]\<close>.
\<close>

fun probe_sticks :: "string list \<Rightarrow> py_dict \<Rightarrow> event list \<Rightarrow> py_dict outcome" where
  "probe_sticks [] stick_axes evs = Done stick_axes evs"
| "probe_sticks (key # keys) stick_axes evs =
     seq (detect_axis_by_moving 0.45 evs) (\<lambda>(axis_i, sign, rest_val) evs.
     seq (wait_for_axis_near axis_i rest_val 0.20 evs) (\<lambda>_ evs.
     probe_sticks keys
       (AList.update key
          (JObj [(''axis'', JInt axis_i), (''sign'', JInt sign), (''rest'', JFloat rest_val)])
          stick_axes)
       evs))"

definition stick_int ::
  "(string \<Rightarrow> int option) \<Rightarrow> py_dict \<Rightarrow> string \<Rightarrow> string \<Rightarrow> py_error + int" where
  "stick_int int_of_str stick_axes key field =
     (case map_of stick_axes key of
        None \<Rightarrow> Inl KeyError
      | Some (JObj d) \<Rightarrow>
          (case map_of d field of
             None \<Rightarrow> Inl KeyError
           | Some v \<Rightarrow> py_int int_of_str v)
      | Some _ \<Rightarrow> Inl TypeError)"

definition calibrate_sticks ::
  "(string \<Rightarrow> int option) \<Rightarrow> Config \<Rightarrow> py_dict \<Rightarrow> event list \<Rightarrow> (Config \<times> py_dict) outcome" where
  "calibrate_sticks int_of_str cfg cal evs =
     seq (wait_for_buttons_released evs) (\<lambda>_ evs.
     seq (probe_sticks [''lx'', ''ly'', ''rx'', ''ry''] [] evs) (\<lambda>stick_axes evs.
       case stick_int int_of_str stick_axes ''lx'' ''axis'' of Inl e \<Rightarrow> Raised e | Inr lx \<Rightarrow>
       case stick_int int_of_str stick_axes ''ly'' ''axis'' of Inl e \<Rightarrow> Raised e | Inr ly \<Rightarrow>
       case stick_int int_of_str stick_axes ''rx'' ''axis'' of Inl e \<Rightarrow> Raised e | Inr rx \<Rightarrow>
       case stick_int int_of_str stick_axes ''ry'' ''axis'' of Inl e \<Rightarrow> Raised e | Inr ry \<Rightarrow>
       case stick_int int_of_str stick_axes ''ly'' ''sign'' of Inl e \<Rightarrow> Raised e | Inr ly_sign \<Rightarrow>
       case stick_int int_of_str stick_axes ''ry'' ''sign'' of Inl e \<Rightarrow> Raised e | Inr ry_sign \<Rightarrow>
         Done (cfg\<lparr>left_x_axis := lx, left_y_axis := ly, right_x_axis := rx, right_y_axis := ry,
                   invert_left_y := (ly_sign > 0), invert_right_y := (ry_sign > 0)\<rparr>,
               AList.update ''stick_axes'' (JObj stick_axes) cal) evs))"

text \<open>The prompts of \<^verbatim>\<open>calibrate_controller\<close>, in order, and the three classes of keys.\<close>

definition steps :: "string list" where
  "steps =
     [''square_x'', ''cross_a'', ''circle_b'', ''triangle_y'',
      ''dpad_up'', ''dpad_left'', ''dpad_down'', ''dpad_right'',
      ''l1_lb'', ''l2_lt'', ''r1_rb'', ''r2_rt'',
      ''start'', ''select_back'', ''l3'', ''r3'']"

definition button_keys :: "string set" where
  "button_keys =
     {''square_x'', ''cross_a'', ''circle_b'', ''triangle_y'',
      ''l1_lb'', ''r1_rb'', ''start'', ''select_back'', ''l3'', ''r3''}"

definition dpad_keys :: "string set" where
  "dpad_keys = {''dpad_up'', ''dpad_left'', ''dpad_down'', ''dpad_right''}"

definition trigger_keys :: "string set" where
  "trigger_keys = {''l2_lt'', ''r2_rt''}"

text \<open>The release loop of a directional-pad prompt in hat mode.\<close>

fun wait_hat_centered ::
  "(string \<Rightarrow> int option) \<Rightarrow> jvalue \<Rightarrow> event list \<Rightarrow> unit outcome" where
  "wait_hat_centered int_of_str hat_index [] = Blocked"
| "wait_hat_centered int_of_str hat_index (Interrupt # evs) = Cancelled"
| "wait_hat_centered int_of_str hat_index (Pump js # evs) =
     (case py_int int_of_str hat_index of
        Inl e \<Rightarrow> Raised e
      | Inr hi \<Rightarrow>
          (case get_hat js hi of
             Inl e \<Rightarrow> Raised e
           | Inr (hx2, hy2) \<Rightarrow>
               if hx2 = 0 \<and> hy2 = 0 \<and> \<not> any_button_pressed js then Done () evs
               else wait_hat_centered int_of_str hat_index evs))"

text \<open>
  One iteration of the loop over the prompts. \<^verbatim>\<open>dpad_mode\<close> and \<^verbatim>\<open>hat_index\<close> are set
  before the loop starts.
\<close>

definition calibrate_step ::
  "(string \<Rightarrow> int option) \<Rightarrow> string \<Rightarrow> py_dict \<Rightarrow> event list \<Rightarrow> py_dict outcome" where
  "calibrate_step int_of_str key cal evs =
     seq (wait_for_buttons_released evs) (\<lambda>_ evs.
       if key \<in> button_keys then
         seq (detect_first_button_press evs) (\<lambda>idx evs.
         seq (wait_for_buttons_released evs) (\<lambda>_ evs.
           Done (AList.update key (JObj [(''type'', JStr ''button''), (''index'', JInt idx)]) cal)
             evs))
       else if key \<in> dpad_keys then
         (if map_of cal ''dpad_mode'' = Some (JStr ''hat'') then
            seq (detect_hat_direction evs) (\<lambda>(hx, hy) evs.
            seq (wait_hat_centered int_of_str (dict_get cal ''hat_index'' JNull) evs) (\<lambda>_ evs.
              Done (AList.update key
                      (JObj [(''type'', JStr ''hat_dir''),
                             (''hat_index'', dict_get cal ''hat_index'' JNull),
                             (''hx'', JInt hx), (''hy'', JInt hy)]) cal)
                evs))
          else
            seq (detect_first_button_press evs) (\<lambda>idx evs.
            seq (wait_for_buttons_released evs) (\<lambda>_ evs.
              Done (AList.update key (JObj [(''type'', JStr ''button''), (''index'', JInt idx)]) cal)
                evs)))
       else if key \<in> trigger_keys then
         seq (detect_trigger_axis 0.35 evs) (\<lambda>(axis_i, mode, rest_val) evs.
         seq (wait_for_axis_near axis_i rest_val 0.18 evs) (\<lambda>_ evs.
           Done (AList.update key
                   (JObj [(''type'', JStr ''axis''), (''index'', JInt axis_i),
                          (''mode'', JStr mode), (''rest'', JFloat rest_val)]) cal)
             evs))
       else Done (AList.update key (JObj [(''type'', JStr ''none'')]) cal) evs)"

fun run_steps ::
  "(string \<Rightarrow> int option) \<Rightarrow> string list \<Rightarrow> py_dict \<Rightarrow> event list \<Rightarrow> py_dict outcome" where
  "run_steps int_of_str [] cal evs = Done cal evs"
| "run_steps int_of_str (key # keys) cal evs =
     seq (calibrate_step int_of_str key cal evs) (\<lambda>cal evs. run_steps int_of_str keys cal evs)"

text \<open>
  \<^verbatim>\<open>calibrate_controller(js, cfg)\<close>: everything up to the last prompt, and then the
  three statements that complete it: the calibration is stored in the configuration, the
  flag is set, the document is written. Beside the outcome, the function returns the
  persisted document, which is the one it was given unless it reaches \<^verbatim>\<open>save_config\<close>.
\<close>

definition calibration_probes ::
  "(string \<Rightarrow> int option) \<Rightarrow> joystick \<Rightarrow> Config \<Rightarrow> event list \<Rightarrow> (Config \<times> py_dict) outcome" where
  "calibration_probes int_of_str js cfg evs =
     (let cal = [(''hat_index'', JInt (if length (js_hats js) > 0 then 0 else - 1)),
                 (''dpad_mode'', JStr (if length (js_hats js) > 0 then ''hat'' else ''buttons''))]
      in seq (wait_for_buttons_released evs) (\<lambda>_ evs.
         seq (calibrate_sticks int_of_str cfg cal evs) (\<lambda>(cfg, cal) evs.
         seq (run_steps int_of_str steps cal evs) (\<lambda>cal evs. Done (cfg, cal) evs))))"

definition calibrate_controller ::
  "(string \<Rightarrow> int option) \<Rightarrow> (py_dict \<Rightarrow> string) \<Rightarrow> joystick \<Rightarrow> Config \<Rightarrow> string option \<Rightarrow>
     event list \<Rightarrow> Config outcome \<times> string option" where
  "calibrate_controller int_of_str dumps js cfg disk evs =
     (case calibration_probes int_of_str js cfg evs of
        Done (cfg, cal) evs \<Rightarrow>
          (let cfg = cfg\<lparr>calibration := cal\<rparr>;
               cfg = cfg\<lparr>calibrated := True\<rparr>
           in (Done cfg evs, save_config dumps (config_dict cfg)))
      | Cancelled \<Rightarrow> (Cancelled, disk)
      | Blocked \<Rightarrow> (Blocked, disk)
      | Raised e \<Rightarrow> (Raised e, disk))"

text \<open>
  The calibration phase of \<^verbatim>\<open>main\<close>: the wizard runs when asked for or when the
  configuration is not calibrated; on \<^verbatim>\<open>KeyboardInterrupt\<close> the program returns.
\<close>

definition main_calibration ::
  "(string \<Rightarrow> int option) \<Rightarrow> (py_dict \<Rightarrow> string) \<Rightarrow> bool \<Rightarrow> joystick \<Rightarrow> Config \<Rightarrow>
     string option \<Rightarrow> event list \<Rightarrow> Config outcome \<times> string option" where
  "main_calibration int_of_str dumps recalibrate js cfg disk evs =
     (if recalibrate \<or> \<not> calibrated cfg
      then calibrate_controller int_of_str dumps js cfg disk evs
      else (Done cfg evs, disk))"

text \<open>
  A probe is steady when more events after a blocked run can only continue it, an
  interrupt after a blocked run cancels it, and a finished run does not read further.
\<close>

definition steady :: "(event list \<Rightarrow> 'a outcome) \<Rightarrow> bool" where
  "steady f =
     (\<forall>pre. (f pre = Blocked \<longrightarrow> (\<forall>post. f (pre @ Interrupt # post) = Cancelled))
          \<and> (\<forall>a rest. f pre = Done a rest \<longrightarrow> (\<forall>xs. f (pre @ xs) = Done a (rest @ xs))))"

text \<open>
  A one-button, one-axis device without a hat, and a session on it that answers every
  prompt, used to state closed examples.
\<close>

definition pad_idle :: joystick where
  "pad_idle = \<lparr> js_buttons = [False], js_axes = [0], js_hats = [] \<rparr>"

definition pad_pressed :: joystick where
  "pad_pressed = \<lparr> js_buttons = [True], js_axes = [0], js_hats = [] \<rparr>"

definition pad_moved :: joystick where
  "pad_moved = \<lparr> js_buttons = [False], js_axes = [1], js_hats = [] \<rparr>"

definition demo_session :: "event list" where
  "demo_session =
     [Pump pad_idle, Pump pad_idle]
     @ concat (replicate 4 [Pump pad_idle, Pump pad_moved, Pump pad_idle])
     @ concat (replicate 9 [Pump pad_idle, Pump pad_pressed, Pump pad_idle])
     @ [Pump pad_idle, Pump pad_idle, Pump pad_moved, Pump pad_idle]
     @ [Pump pad_idle, Pump pad_pressed, Pump pad_idle]
     @ [Pump pad_idle, Pump pad_idle, Pump pad_moved, Pump pad_idle]
     @ concat (replicate 4 [Pump pad_idle, Pump pad_pressed, Pump pad_idle])"

section \<open>Transform loop: yaw integration\<close>

text \<open>
  Python's \<^verbatim>\<open>a % b\<close> on floats takes the sign of the divisor: \<open>a - b * floor (a / b)\<close>.
  The only divisor of the source is the constant \<^verbatim>\<open>2.0 * math.pi\<close>, never zero.
\<close>

definition py_fmod :: "real \<Rightarrow> real \<Rightarrow> real" where
  "py_fmod a b = a - b * of_int \<lfloor>a / b\<rfloor>"

text \<open>
  The yaw block of one tick of \<^verbatim>\<open>controller_loop\<close>: from the deadzoned right stick
  \<open>drx\<close>, the elapsed time \<open>dt\<close> and the accumulated \<open>yaw_offset\<close> to the new offset.
\<close>

definition yaw_integrate :: "Config \<Rightarrow> real \<Rightarrow> real \<Rightarrow> real \<Rightarrow> real" where
  "yaw_integrate cfg drx dt yaw_offset =
     (let rot_dir = (if invert_rotation cfg then - 1 else 1);
          speed_rad = rotation_speed_deg_per_sec cfg * pi / 180;
          yaw_offset = yaw_offset + rot_dir * (drx * speed_rad * dt)
      in if wrap_yaw cfg then py_fmod (yaw_offset + pi) (2 * pi) - pi else yaw_offset)"

text \<open>The amount one tick adds to the offset: \<^verbatim>\<open>rot_dir * (drx * speed_rad * dt)\<close>.\<close>

definition yaw_increment :: "Config \<Rightarrow> real \<Rightarrow> real \<Rightarrow> real" where
  "yaw_increment cfg drx dt =
     (if invert_rotation cfg then - 1 else 1) *
       (drx * (rotation_speed_deg_per_sec cfg * pi / 180) * dt)"

text \<open>The offset after a run of ticks, each given as \<open>(drx, dt)\<close>.\<close>

fun yaw_run :: "Config \<Rightarrow> (real \<times> real) list \<Rightarrow> real \<Rightarrow> real" where
  "yaw_run cfg [] yaw_offset = yaw_offset"
| "yaw_run cfg ((drx, dt) # ticks) yaw_offset =
     yaw_run cfg ticks (yaw_integrate cfg drx dt yaw_offset)"

section \<open>Transform loop: chord and edge detection\<close>

datatype vk = VK_F8 | VK_F11 | VK_F12 | VK_UP | VK_DOWN

text \<open>The loop's edge-detection variables, and the buttons one tick reads.\<close>

record chord_state =
  prev_l3 :: bool
  f8_combo_armed :: bool
  f12_combo_armed :: bool

record pad =
  l1 :: bool
  start :: bool
  r3 :: bool
  l3 :: bool

definition chord_init :: chord_state where
  "chord_init = \<lparr> prev_l3 = False, f8_combo_armed = False, f12_combo_armed = False \<rparr>"

text \<open>
  The three keyboard bindings of one tick, in the order of the source; the result is the
  list of keys tapped (\<^verbatim>\<open>vk_tap\<close>) and the updated variables.
\<close>

definition chord_tick :: "chord_state \<Rightarrow> pad \<Rightarrow> vk list \<times> chord_state" where
  "chord_tick st b =
     (let combo_f8_now = (l1 b \<and> r3 b);
          (taps, st) = (if combo_f8_now \<and> \<not> f8_combo_armed st
                        then ([VK_F8], st\<lparr>f8_combo_armed := True\<rparr>) else ([], st));
          st = (if \<not> combo_f8_now then st\<lparr>f8_combo_armed := False\<rparr> else st);
          taps = (if l3 b \<and> \<not> prev_l3 st then taps @ [VK_F11] else taps);
          st = st\<lparr>prev_l3 := l3 b\<rparr>;
          combo_f12_now = (l1 b \<and> start b);
          (taps, st) = (if combo_f12_now \<and> \<not> f12_combo_armed st
                        then (taps @ [VK_F12], st\<lparr>f12_combo_armed := True\<rparr>) else (taps, st));
          st = (if \<not> combo_f12_now then st\<lparr>f12_combo_armed := False\<rparr> else st)
      in (taps, st))"

text \<open>The keys tapped in each tick of a run.\<close>

fun chord_run :: "chord_state \<Rightarrow> pad list \<Rightarrow> vk list list" where
  "chord_run st [] = []"
| "chord_run st (b # bs) = fst (chord_tick st b) # chord_run (snd (chord_tick st b)) bs"

section \<open>Transform loop: pointer emission\<close>

text \<open>
  The motion of one active tick, before accumulation: the deadzoned right stick through
  the power-law curve, optional inversion, and the scale by speed and elapsed time.
  \<^verbatim>\<open>mag ** e\<close> is only evaluated for \<open>mag > 0\<close>, where it is \<open>mag powr e\<close>.
\<close>

definition mouse_motion :: "Config \<Rightarrow> real \<Rightarrow> real \<Rightarrow> real \<Rightarrow> py_error + (real \<times> real)" where
  "mouse_motion cfg rx ry dt =
     (case apply_deadzone rx ry (mouse_deadzone cfg) of
        Inl e \<Rightarrow> Inl e
      | Inr (mx, my) \<Rightarrow>
          (let mag = hypot mx my;
               (mx, my) = (if mag > 0
                           then (let adj_mag = mag powr (max 0.01 (mouse_accel cfg));
                                     scale = adj_mag / mag
                                 in (mx * scale, my * scale))
                           else (mx, my));
               my = (if mouse_invert_y cfg then - my else my);
               mouse_dx = mx * mouse_speed_px_per_sec cfg * dt;
               mouse_dy = - my * mouse_speed_px_per_sec cfg * dt
           in Inr (mouse_dx, mouse_dy)))"

text \<open>
  Accumulation and emission: the remainder \<open>(mouse_rem_x, mouse_rem_y)\<close> takes the
  motion, the rounded part is sent and subtracted.
\<close>

definition mouse_emit :: "real \<times> real \<Rightarrow> real \<times> real \<Rightarrow> (int \<times> int) \<times> (real \<times> real)" where
  "mouse_emit rem d =
     (let mouse_rem_x = fst rem + fst d;
          mouse_rem_y = snd rem + snd d;
          send_dx = py_round mouse_rem_x;
          send_dy = py_round mouse_rem_y;
          mouse_rem_x = mouse_rem_x - of_int send_dx;
          mouse_rem_y = mouse_rem_y - of_int send_dy
      in ((send_dx, send_dy), (mouse_rem_x, mouse_rem_y)))"

text \<open>
  The mouse block of one tick. \<open>active\<close> is the value of the activation policy;
  an inactive or disabled tick sends nothing and keeps the remainder.
\<close>

definition mouse_tick ::
  "Config \<Rightarrow> bool \<Rightarrow> real \<Rightarrow> real \<Rightarrow> real \<Rightarrow> real \<times> real \<Rightarrow> py_error + ((int \<times> int) \<times> (real \<times> real))" where
  "mouse_tick cfg active rx ry dt rem =
     (if mouse_enabled cfg \<and> active then
        (case mouse_motion cfg rx ry dt of
           Inl e \<Rightarrow> Inl e
         | Inr d \<Rightarrow> Inr (mouse_emit rem d))
      else Inr ((0, 0), rem))"

text \<open>
  \<open>K\<close> active ticks with the same stick position and elapsed time: the deltas sent,
  in order, and the final remainder.
\<close>

fun mouse_run ::
  "Config \<Rightarrow> real \<Rightarrow> real \<Rightarrow> real \<Rightarrow> nat \<Rightarrow> real \<times> real \<Rightarrow> py_error + ((int \<times> int) list \<times> (real \<times> real))" where
  "mouse_run cfg rx ry dt 0 rem = Inr ([], rem)"
| "mouse_run cfg rx ry dt (Suc k) rem =
     (case mouse_tick cfg True rx ry dt rem of
        Inl e \<Rightarrow> Inl e
      | Inr (sent, rem') \<Rightarrow>
          (case mouse_run cfg rx ry dt k rem' of
             Inl e \<Rightarrow> Inl e
           | Inr (sents, rem'') \<Rightarrow> Inr (sent # sents, rem'')))"

chapter \<open>Properties\<close>

section \<open>Numeric helpers\<close>

lemma hypot_nonneg: "0 \<le> hypot x y"
  by (simp add: hypot_def)

lemma hypot_scale: "0 \<le> s \<Longrightarrow> hypot (x * s) (y * s) = s * hypot x y"
proof -
  assume s: "0 \<le> s"
  have "(x * s)\<^sup>2 + (y * s)\<^sup>2 = s\<^sup>2 * (x\<^sup>2 + y\<^sup>2)"
    by (simp add: power_mult_distrib algebra_simps)
  then show ?thesis
    using s by (simp add: hypot_def real_sqrt_mult)
qed

lemma clamp_range: "lo \<le> hi \<Longrightarrow> lo \<le> clamp v lo hi \<and> clamp v lo hi \<le> hi"
  by (simp add: clamp_def)

lemma apply_deadzone_rescale:
  assumes dz: "dz < 1" and m: "dz \<le> hypot x y" and nz: "hypot x y \<noteq> 0"
  shows "apply_deadzone x y dz =
           Inr (x * (clamp ((hypot x y - dz) / (1 - dz)) 0 1 / hypot x y),
                y * (clamp ((hypot x y - dz) / (1 - dz)) 0 1 / hypot x y))"
  using assms by (simp add: apply_deadzone_def py_div_def Let_def)

lemma apply_deadzone_zeroed:
  "hypot x y < dz \<or> hypot x y = 0 \<Longrightarrow> apply_deadzone x y dz = Inr (0, 0)"
  by (auto simp add: apply_deadzone_def Let_def)

lemma atan2_scale: "0 < s \<Longrightarrow> atan2 (y * s) (x * s) = atan2 y x"
  by (simp add: atan2_def zero_less_mult_iff mult_less_0_iff zero_le_mult_iff)

lemma py_round_floor_le: "\<lfloor>x\<rfloor> \<le> py_round x"
  by (simp add: py_round_def Let_def)

lemma py_round_le_floor: "py_round x \<le> \<lfloor>x\<rfloor> + 1"
  by (simp add: py_round_def Let_def)

lemma py_round_mono:
  assumes "x \<le> y" shows "py_round x \<le> py_round y"
proof (cases "\<lfloor>x\<rfloor> = \<lfloor>y\<rfloor>")
  case True
  then show ?thesis using assms by (auto simp add: py_round_def Let_def)
next
  case False
  have "\<lfloor>x\<rfloor> \<le> \<lfloor>y\<rfloor>" using assms by (rule floor_mono)
  with False have "\<lfloor>x\<rfloor> + 1 \<le> \<lfloor>y\<rfloor>" by simp
  then show ?thesis using py_round_le_floor[of x] py_round_floor_le[of y] by linarith
qed

lemma py_round_of_int: "py_round (of_int n) = n"
  by (simp add: py_round_def)

lemma py_round_err: "\<bar>x - of_int (py_round x)\<bar> \<le> 1 / 2"
  unfolding py_round_def Let_def by (auto; linarith)

lemma axis_to_trigger_eq:
  "axis_to_trigger_0_255 v mode = py_round (clamp (trigger_norm v mode) 0 1 * 255)"
  by (simp add: axis_to_trigger_0_255_def trigger_norm_def Let_def)

lemma clamp_mono: "lo \<le> hi \<Longrightarrow> a \<le> b \<Longrightarrow> clamp a lo hi \<le> clamp b lo hi"
  by (simp add: clamp_def)

section \<open>Radial deadzone\<close>

text \<open>
  In exact arithmetic: for a deadzone radius \<open>dz\<close> in \<open>[0, 1)\<close> and any input \<open>(x, y)\<close>: an input of
  magnitude exactly \<open>dz\<close> gives \<open>(0, 0)\<close>; an input of magnitude 1 gives an output of
  magnitude 1; whenever the output is not \<open>(0, 0)\<close>, its angle \<open>atan2\<close> is the angle
  of the input; and with \<open>dz = 0.1\<close> the input \<open>(0.55, 0)\<close> gives \<open>(0.5, 0)\<close>.
\<close>

theorem apply_deadzone_boundary_direction:
  assumes "0 \<le> dz" and "dz < 1"
  shows "(hypot x y = dz \<longrightarrow> apply_deadzone x y dz = Inr (0, 0))
       \<and> (hypot x y = 1 \<longrightarrow>
            (\<exists>ox oy. apply_deadzone x y dz = Inr (ox, oy) \<and> hypot ox oy = 1))
       \<and> (\<forall>ox oy. apply_deadzone x y dz = Inr (ox, oy) \<longrightarrow> (ox, oy) \<noteq> (0, 0) \<longrightarrow>
                    atan2 oy ox = atan2 y x)
       \<and> apply_deadzone 0.55 0 0.1 = Inr (0.5, 0)"
proof -
  let ?m = "hypot x y"
  let ?n = "clamp ((?m - dz) / (1 - dz)) 0 1"
  have a: "apply_deadzone x y dz = Inr (0, 0)" if h: "?m = dz"
  proof (cases "?m = 0")
    case True
    then show ?thesis by (simp add: apply_deadzone_zeroed)
  next
    case False
    have "apply_deadzone x y dz = Inr (x * (?n / ?m), y * (?n / ?m))"
      using assms(2) _ False by (rule apply_deadzone_rescale) (simp add: h)
    moreover have "?n = 0" using h by (simp add: clamp_def)
    ultimately show ?thesis by simp
  qed
  have b: "\<exists>ox oy. apply_deadzone x y dz = Inr (ox, oy) \<and> hypot ox oy = 1" if h: "?m = 1"
  proof -
    have "apply_deadzone x y dz = Inr (x * (?n / ?m), y * (?n / ?m))"
      using assms(2) by (rule apply_deadzone_rescale) (use assms h in simp_all)
    moreover have "?n = 1" using h assms by (simp add: clamp_def)
    ultimately have "apply_deadzone x y dz = Inr (x, y)" using h by simp
    with h show ?thesis by blast
  qed
  have c: "atan2 oy ox = atan2 y x"
    if r: "apply_deadzone x y dz = Inr (ox, oy)" and nz: "(ox, oy) \<noteq> (0, 0)" for ox oy
  proof -
    have nzero: "\<not> (?m < dz \<or> ?m = 0)"
      using r nz apply_deadzone_zeroed[of x y dz] by auto
    then have m: "dz \<le> ?m" "?m \<noteq> 0" by auto
    then have pos: "0 < ?m" using hypot_nonneg[of x y] by simp
    have eq: "apply_deadzone x y dz = Inr (x * (?n / ?m), y * (?n / ?m))"
      using assms(2) m by (rule apply_deadzone_rescale)
    with r have o: "ox = x * (?n / ?m)" "oy = y * (?n / ?m)" by simp_all
    have "0 \<le> ?n \<and> ?n \<le> 1" by (rule clamp_range) simp
    moreover have "?n \<noteq> 0" using nz o by auto
    ultimately have "0 < ?n / ?m" using pos by simp
    then show ?thesis unfolding o by (rule atan2_scale)
  qed
  have d: "apply_deadzone 0.55 0 0.1 = Inr (0.5, 0)"
    by (simp add: apply_deadzone_def hypot_def py_div_def clamp_def Let_def)
  from a b c d show ?thesis by blast
qed

theorem apply_deadzone_boundary_direction_witness:
  "(0::real) \<le> 1 / 10 \<and> (1 / 10 :: real) < 1
   \<and> hypot 1 0 = 1 \<and> apply_deadzone 1 0 (1 / 10) = Inr (1, 0)
   \<and> hypot (1 / 10) 0 = 1 / 10 \<and> apply_deadzone (1 / 10) 0 (1 / 10) = Inr (0, 0)
   \<and> atan2 0 1 = atan2 0 1 \<and> apply_deadzone 0.55 0 0.1 = Inr (0.5, 0)"
  using apply_deadzone_boundary_direction [of "1 / 10" 1 0]
    apply_deadzone_boundary_direction [of "1 / 10" "1 / 10" 0]
  by (simp add: hypot_def apply_deadzone_def py_div_def clamp_def Let_def)

text \<open>
  In exact arithmetic: for \<open>dz\<close> in \<open>[0, 1)\<close>, \<^verbatim>\<open>apply_deadzone\<close> returns a pair on every input:
  neither division is reached with a zero divisor, also for \<open>dz = 0\<close> and the input
  \<open>(0, 0)\<close>. The magnitude of the output is at most 1 (for every input, so in particular
  for the inputs of magnitude at most 1).
\<close>

theorem apply_deadzone_total:
  assumes "0 \<le> dz" and "dz < 1"
  shows "(\<exists>ox oy. apply_deadzone x y dz = Inr (ox, oy) \<and> hypot ox oy \<le> 1)
         \<and> apply_deadzone 0 0 0 = Inr (0, 0)"
proof -
  have z: "apply_deadzone 0 0 0 = Inr (0, 0)"
    by (rule apply_deadzone_zeroed) (simp add: hypot_def)
  have "\<exists>ox oy. apply_deadzone x y dz = Inr (ox, oy) \<and> hypot ox oy \<le> 1"
  proof (cases "hypot x y < dz \<or> hypot x y = 0")
    case True
    then have "apply_deadzone x y dz = Inr (0, 0)" by (rule apply_deadzone_zeroed)
    moreover have "hypot 0 0 \<le> 1" by (simp add: hypot_def)
    ultimately show ?thesis by blast
  next
    case False
    let ?m = "hypot x y"
    let ?n = "clamp ((?m - dz) / (1 - dz)) 0 1"
    from False have m: "dz \<le> ?m" "?m \<noteq> 0" by auto
    then have pos: "0 < ?m" using hypot_nonneg[of x y] by simp
    have n: "0 \<le> ?n \<and> ?n \<le> 1" by (rule clamp_range) simp
    then have s: "0 \<le> ?n / ?m" using pos by simp
    have eq: "apply_deadzone x y dz = Inr (x * (?n / ?m), y * (?n / ?m))"
      using assms(2) m by (rule apply_deadzone_rescale)
    have "hypot (x * (?n / ?m)) (y * (?n / ?m)) = (?n / ?m) * ?m"
      using s by (rule hypot_scale)
    also have "\<dots> = ?n" using pos by simp
    finally have "hypot (x * (?n / ?m)) (y * (?n / ?m)) \<le> 1" using n by simp
    with eq show ?thesis by blast
  qed
  with z show ?thesis by blast
qed

theorem apply_deadzone_total_witness:
  "(0::real) \<le> 1 / 10 \<and> (1 / 10 :: real) < 1
   \<and> (\<exists>ox oy. apply_deadzone (11 / 20) 0 (1 / 10) = Inr (ox, oy) \<and> hypot ox oy \<le> 1)
   \<and> apply_deadzone 0 0 0 = Inr (0, 0)"
  using apply_deadzone_total [of "1 / 10" "11 / 20" 0] by simp

section \<open>Trigger normalization\<close>

text \<open>
  C5. For every raw axis value and every mode, the trigger level is an integer between
  0 and 255, and it is monotonic in the normalized input of the mode: a reading whose
  normalized value is not smaller gives a level that is not smaller. A trigger resting
  at \<open>-1\<close> is classified as ascending bipolar, and there the raw reading 0 gives 128.
\<close>

theorem axis_to_trigger_range_mono:
  "0 \<le> axis_to_trigger_0_255 v mode \<and> axis_to_trigger_0_255 v mode \<le> 255
   \<and> (trigger_norm v1 mode \<le> trigger_norm v2 mode \<longrightarrow>
        axis_to_trigger_0_255 v1 mode \<le> axis_to_trigger_0_255 v2 mode)
   \<and> axis_to_trigger_0_255 0 (trigger_mode_of_rest (- 1)) = 128"
proof -
  let ?c = "clamp (trigger_norm v mode) 0 1"
  have c: "0 \<le> ?c \<and> ?c \<le> 1" by (rule clamp_range) simp
  have "py_round (of_int 0) \<le> py_round (?c * 255)"
    by (rule py_round_mono) (use c in simp)
  then have lo: "0 \<le> axis_to_trigger_0_255 v mode"
    by (simp only: py_round_of_int axis_to_trigger_eq)
  have "py_round (?c * 255) \<le> py_round (of_int 255)"
    by (rule py_round_mono) (use c in simp)
  then have hi: "axis_to_trigger_0_255 v mode \<le> 255"
    by (simp only: py_round_of_int axis_to_trigger_eq)
  have mono: "axis_to_trigger_0_255 v1 mode \<le> axis_to_trigger_0_255 v2 mode"
    if "trigger_norm v1 mode \<le> trigger_norm v2 mode"
    unfolding axis_to_trigger_eq
    by (rule py_round_mono) (use that clamp_mono[of 0 1] in simp)
  have ex: "axis_to_trigger_0_255 0 (trigger_mode_of_rest (- 1)) = 128"
    by (simp add: axis_to_trigger_0_255_def trigger_mode_of_rest_def clamp_def py_round_def Let_def)
  from lo hi mono ex show ?thesis by blast
qed

theorem axis_to_trigger_range_mono_witness:
  "trigger_norm (- 1) ''one_to_minus1'' \<ge> trigger_norm 1 ''one_to_minus1''
   \<and> axis_to_trigger_0_255 1 ''one_to_minus1'' \<le> axis_to_trigger_0_255 (- 1) ''one_to_minus1''
   \<and> axis_to_trigger_0_255 1 ''one_to_minus1'' = 0
   \<and> axis_to_trigger_0_255 (- 1) ''one_to_minus1'' = 255"
  using axis_to_trigger_range_mono [of 0 "''one_to_minus1''" 1 "- 1"]
  by (simp add: trigger_norm_def axis_to_trigger_0_255_def clamp_def py_round_def Let_def)

section \<open>Yaw integration\<close>

lemma py_fmod_range: "0 < b \<Longrightarrow> 0 \<le> py_fmod a b \<and> py_fmod a b < b"
proof -
  assume b: "0 < b"
  have "of_int \<lfloor>a / b\<rfloor> \<le> a / b" by (rule of_int_floor_le)
  then have 1: "of_int \<lfloor>a / b\<rfloor> * b \<le> a"
    using b by (simp only: pos_le_divide_eq)
  have "a / b < of_int \<lfloor>a / b\<rfloor> + 1" by linarith
  then have 2: "a < (of_int \<lfloor>a / b\<rfloor> + 1) * b"
    using b by (simp only: pos_divide_less_eq)
  from 1 2 show ?thesis by (simp add: py_fmod_def algebra_simps)
qed

lemma yaw_integrate_wrapped:
  "wrap_yaw cfg \<Longrightarrow> - pi \<le> yaw_integrate cfg drx dt y \<and> yaw_integrate cfg drx dt y < pi"
  using py_fmod_range[of "2 * pi"] by (simp add: yaw_integrate_def Let_def)

lemma yaw_integrate_unwrapped:
  "\<not> wrap_yaw cfg \<Longrightarrow> yaw_integrate cfg drx dt y = y + yaw_increment cfg drx dt"
  by (simp add: yaw_integrate_def yaw_increment_def Let_def)

lemma yaw_run_unwrapped:
  "\<not> wrap_yaw cfg \<Longrightarrow>
     yaw_run cfg (replicate n (drx, dt)) y = y + of_nat n * yaw_increment cfg drx dt"
  by (induction n arbitrary: y) (simp_all add: yaw_integrate_unwrapped algebra_simps)

lemma unbounded_multiples:
  fixes c :: real assumes "c \<noteq> 0"
  shows "\<exists>n::nat. B < \<bar>y + of_nat n * c\<bar>"
proof -
  obtain n :: nat where n: "(B + \<bar>y\<bar>) / \<bar>c\<bar> < of_nat n"
    using reals_Archimedean2 by blast
  have "B + \<bar>y\<bar> < of_nat n * \<bar>c\<bar>"
    using n assms by (simp add: pos_divide_less_eq)
  moreover have "\<bar>of_nat n * c\<bar> = of_nat n * \<bar>c\<bar>" by (simp add: abs_mult)
  moreover have "\<bar>of_nat n * c\<bar> - \<bar>y\<bar> \<le> \<bar>y + of_nat n * c\<bar>" by linarith
  ultimately have "B < \<bar>y + of_nat n * c\<bar>" by linarith
  then show ?thesis ..
qed

text \<open>
  C1, as the code has it. With wrap enabled, the yaw offset after a tick's integration
  lies in the closed interval \<open>[-\<pi>, \<pi>]\<close>: the lower end is reached. With wrap
  disabled the tick adds its increment and nothing else, so under a constant nonzero
  increment the offset exceeds every bound.
\<close>

theorem yaw_wrap_range:
  "(wrap_yaw cfg \<longrightarrow>
      - pi \<le> yaw_integrate cfg drx dt y \<and> yaw_integrate cfg drx dt y \<le> pi)
   \<and> (\<not> wrap_yaw cfg \<longrightarrow>
        yaw_integrate cfg drx dt y = y + yaw_increment cfg drx dt
        \<and> (yaw_increment cfg drx dt \<noteq> 0 \<longrightarrow>
             (\<forall>B. \<exists>n. B < \<bar>yaw_run cfg (replicate n (drx, dt)) y\<bar>)))"
proof -
  have "\<exists>n. B < \<bar>yaw_run cfg (replicate n (drx, dt)) y\<bar>"
    if "\<not> wrap_yaw cfg" and "yaw_increment cfg drx dt \<noteq> 0" for B
    using unbounded_multiples[OF that(2), of B y] by (simp add: yaw_run_unwrapped[OF that(1)])
  then show ?thesis
    using yaw_integrate_wrapped[of cfg drx dt y] yaw_integrate_unwrapped[of cfg drx dt y]
    by (simp add: less_imp_le)
qed

theorem yaw_wrap_range_witness:
  "wrap_yaw default_config
   \<and> - pi \<le> yaw_integrate default_config (- 1) 1 0
   \<and> yaw_integrate default_config (- 1) 1 0 \<le> pi
   \<and> \<not> wrap_yaw (default_config\<lparr>wrap_yaw := False\<rparr>)
   \<and> yaw_increment (default_config\<lparr>wrap_yaw := False\<rparr>) (- 1) 1 = pi
   \<and> yaw_integrate (default_config\<lparr>wrap_yaw := False\<rparr>) (- 1) 1 0 = pi
   \<and> (\<forall>B. \<exists>n. B < \<bar>yaw_run (default_config\<lparr>wrap_yaw := False\<rparr>) (replicate n (- 1, 1)) 0\<bar>)"
proof -
  have w: "wrap_yaw default_config" by (simp add: default_config_def)
  have nw: "\<not> wrap_yaw (default_config\<lparr>wrap_yaw := False\<rparr>)" by simp
  have inc: "yaw_increment (default_config\<lparr>wrap_yaw := False\<rparr>) (- 1) 1 = pi"
    by (simp add: yaw_increment_def default_config_def)
  show ?thesis
    using w nw inc yaw_wrap_range [of default_config "- 1" 1 0]
      yaw_wrap_range [of "default_config\<lparr>wrap_yaw := False\<rparr>" "- 1" 1 0]
    by simp
qed

text \<open>
  C1 as stated fails: from offset 0 with the default configuration, the right stick
  fully left for one second integrates to \<open>\<pi>\<close>, which the wrap maps to \<open>-\<pi>\<close>,
  outside \<open>(-\<pi>, \<pi>]\<close>.
\<close>

theorem yaw_wrap_counterexample:
  "\<not> (- pi < yaw_integrate default_config (- 1) 1 0
       \<and> yaw_integrate default_config (- 1) 1 0 \<le> pi)"
proof -
  have "yaw_integrate default_config (- 1) 1 0 = - pi"
    by (simp add: yaw_integrate_def default_config_def py_fmod_def Let_def)
  then show ?thesis by simp
qed

section \<open>Chord and edge detection\<close>

lemma chord_tick_taps:
  "fst (chord_tick st b) =
     (if (l1 b \<and> r3 b) \<and> \<not> f8_combo_armed st then [VK_F8] else [])
     @ (if l3 b \<and> \<not> prev_l3 st then [VK_F11] else [])
     @ (if (l1 b \<and> start b) \<and> \<not> f12_combo_armed st then [VK_F12] else [])"
  by (simp add: chord_tick_def Let_def)

lemma chord_tick_state:
  "snd (chord_tick st b) =
     \<lparr> prev_l3 = l3 b, f8_combo_armed = (l1 b \<and> r3 b), f12_combo_armed = (l1 b \<and> start b) \<rparr>"
  by (cases st) (simp add: chord_tick_def Let_def)

lemma chord_run_length: "length (chord_run st bs) = length bs"
  by (induction bs arbitrary: st) simp_all

lemma chord_run_nth:
  "i < length bs \<Longrightarrow>
   chord_run st bs ! i =
     (if (l1 (bs ! i) \<and> r3 (bs ! i))
         \<and> \<not> (if i = 0 then f8_combo_armed st else l1 (bs ! (i - 1)) \<and> r3 (bs ! (i - 1)))
      then [VK_F8] else [])
     @ (if l3 (bs ! i) \<and> \<not> (if i = 0 then prev_l3 st else l3 (bs ! (i - 1)))
        then [VK_F11] else [])
     @ (if (l1 (bs ! i) \<and> start (bs ! i))
           \<and> \<not> (if i = 0 then f12_combo_armed st else l1 (bs ! (i - 1)) \<and> start (bs ! (i - 1)))
        then [VK_F12] else [])"
proof (induction bs arbitrary: st i)
  case Nil
  then show ?case by simp
next
  case (Cons b bs)
  show ?case
  proof (cases i)
    case 0
    then show ?thesis by (simp add: chord_tick_taps)
  next
    case (Suc j)
    with Cons.prems have j: "j < length bs" by simp
    show ?thesis
    proof (cases j)
      case 0
      with Suc j Cons.IH[OF j, of "snd (chord_tick st b)"] show ?thesis
        by (simp add: chord_tick_state)
    next
      case (Suc k)
      with \<open>i = Suc j\<close> j Cons.IH[OF j, of "snd (chord_tick st b)"] show ?thesis
        by simp
    qed
  qed
qed

text \<open>
  C4. In every run of ticks from the loop's initial state, tick \<open>i\<close> taps F8 exactly
  once when L1 and R3 are both held at tick \<open>i\<close> and were not both held at tick
  \<open>i - 1\<close> (or \<open>i\<close> is the first tick), and not at all otherwise; the same for F12
  with L1 and Start, and for F11 with L3 alone.
\<close>

theorem chord_fires_once_per_rising_edge:
  assumes "i < length bs"
  shows "count_list (chord_run chord_init bs ! i) VK_F8 =
           (if (l1 (bs ! i) \<and> r3 (bs ! i)) \<and> \<not> (0 < i \<and> l1 (bs ! (i - 1)) \<and> r3 (bs ! (i - 1)))
            then 1 else 0)
       \<and> count_list (chord_run chord_init bs ! i) VK_F12 =
           (if (l1 (bs ! i) \<and> start (bs ! i)) \<and> \<not> (0 < i \<and> l1 (bs ! (i - 1)) \<and> start (bs ! (i - 1)))
            then 1 else 0)
       \<and> count_list (chord_run chord_init bs ! i) VK_F11 =
           (if l3 (bs ! i) \<and> \<not> (0 < i \<and> l3 (bs ! (i - 1))) then 1 else 0)"
  using assms by (cases i) (auto simp add: chord_run_nth chord_init_def)

theorem chord_fires_once_per_rising_edge_witness:
  "(0::nat) < length
       [\<lparr> l1 = True, start = False, r3 = True, l3 = True \<rparr>,
        \<lparr> l1 = True, start = False, r3 = True, l3 = True \<rparr>,
        \<lparr> l1 = False, start = False, r3 = True, l3 = False \<rparr>,
        \<lparr> l1 = True, start = True, r3 = True, l3 = True \<rparr>]
   \<and> chord_run chord_init
       [\<lparr> l1 = True, start = False, r3 = True, l3 = True \<rparr>,
        \<lparr> l1 = True, start = False, r3 = True, l3 = True \<rparr>,
        \<lparr> l1 = False, start = False, r3 = True, l3 = False \<rparr>,
        \<lparr> l1 = True, start = True, r3 = True, l3 = True \<rparr>]
     = [[VK_F8, VK_F11], [], [], [VK_F8, VK_F11, VK_F12]]
   \<and> count_list [VK_F8, VK_F11] VK_F8 = 1
   \<and> count_list ([] :: vk list) VK_F8 = 0"
  using chord_fires_once_per_rising_edge [of 0
     "[\<lparr> l1 = True, start = False, r3 = True, l3 = True \<rparr>,
       \<lparr> l1 = True, start = False, r3 = True, l3 = True \<rparr>,
       \<lparr> l1 = False, start = False, r3 = True, l3 = False \<rparr>,
       \<lparr> l1 = True, start = True, r3 = True, l3 = True \<rparr>]"]
    chord_fires_once_per_rising_edge [of 1
     "[\<lparr> l1 = True, start = False, r3 = True, l3 = True \<rparr>,
       \<lparr> l1 = True, start = False, r3 = True, l3 = True \<rparr>,
       \<lparr> l1 = False, start = False, r3 = True, l3 = False \<rparr>,
       \<lparr> l1 = True, start = True, r3 = True, l3 = True \<rparr>]"]
  by (simp add: chord_init_def chord_tick_def Let_def)

section \<open>Pointer emission\<close>

lemma mouse_emit_sent:
  "fst (mouse_emit rem d) = (py_round (fst rem + fst d), py_round (snd rem + snd d))"
  by (simp add: mouse_emit_def Let_def)

lemma mouse_emit_rem:
  "snd (mouse_emit rem d) =
     (fst rem + fst d - of_int (py_round (fst rem + fst d)),
      snd rem + snd d - of_int (py_round (snd rem + snd d)))"
  by (simp add: mouse_emit_def Let_def)

lemma mouse_emit_bound:
  "\<bar>fst (snd (mouse_emit rem d))\<bar> \<le> 1 / 2 \<and> \<bar>snd (snd (mouse_emit rem d))\<bar> \<le> 1 / 2"
  using py_round_err[of "fst rem + fst d"] py_round_err[of "snd rem + snd d"]
  by (simp add: mouse_emit_rem)

lemma mouse_emit_conserves:
  "of_int (fst (fst (mouse_emit rem d))) + fst (snd (mouse_emit rem d)) = fst rem + fst d
   \<and> of_int (snd (fst (mouse_emit rem d))) + snd (snd (mouse_emit rem d)) = snd rem + snd d"
  by (simp add: mouse_emit_rem mouse_emit_sent)

lemma mouse_run_constant:
  assumes en: "mouse_enabled cfg" and m: "mouse_motion cfg rx ry dt = Inr d"
  shows "\<exists>sents rem'. mouse_run cfg rx ry dt K rem = Inr (sents, rem')
           \<and> length sents = K
           \<and> of_int (sum_list (map fst sents)) + fst rem' = fst rem + of_nat K * fst d
           \<and> of_int (sum_list (map snd sents)) + snd rem' = snd rem + of_nat K * snd d
           \<and> (0 < K \<longrightarrow> \<bar>fst rem'\<bar> \<le> 1 / 2 \<and> \<bar>snd rem'\<bar> \<le> 1 / 2)"
proof (induction K arbitrary: rem)
  case 0
  show ?case by simp
next
  case (Suc K)
  let ?e = "mouse_emit rem d"
  have t: "mouse_tick cfg True rx ry dt rem = Inr (fst ?e, snd ?e)"
    using en m by (simp add: mouse_tick_def)
  obtain sents rem' where r: "mouse_run cfg rx ry dt K (snd ?e) = Inr (sents, rem')"
      and l: "length sents = K"
      and sx: "of_int (sum_list (map fst sents)) + fst rem' = fst (snd ?e) + of_nat K * fst d"
      and sy: "of_int (sum_list (map snd sents)) + snd rem' = snd (snd ?e) + of_nat K * snd d"
      and b: "0 < K \<longrightarrow> \<bar>fst rem'\<bar> \<le> 1 / 2 \<and> \<bar>snd rem'\<bar> \<le> 1 / 2"
    using Suc.IH[of "snd ?e"] by blast
  have run: "mouse_run cfg rx ry dt (Suc K) rem = Inr (fst ?e # sents, rem')"
    using t r by (simp add: case_prod_beta)
  have bound: "\<bar>fst rem'\<bar> \<le> 1 / 2 \<and> \<bar>snd rem'\<bar> \<le> 1 / 2"
  proof (cases K)
    case 0
    with r have "rem' = snd ?e" by simp
    then show ?thesis using mouse_emit_bound[of rem d] by simp
  next
    case (Suc n)
    with b show ?thesis by simp
  qed
  have cx: "of_int (sum_list (map fst (fst ?e # sents))) + fst rem' = fst rem + of_nat (Suc K) * fst d"
    using sx mouse_emit_conserves[of rem d] by (simp add: algebra_simps)
  have cy: "of_int (sum_list (map snd (fst ?e # sents))) + snd rem' = snd rem + of_nat (Suc K) * snd d"
    using sy mouse_emit_conserves[of rem d] by (simp add: algebra_simps)
  from run l bound cx cy show ?case by auto
qed

text \<open>
  C6. With the mouse enabled, an active tick sends the rounded accumulated motion and
  keeps the difference, whose absolute value is at most \<open>1/2\<close> in each component.
  Over \<open>K\<close> active ticks with a constant input, starting from a zero remainder, the
  sum of the deltas sent differs from \<open>K\<close> times the motion of one tick by the final
  remainder: by at most \<open>1/2\<close>, hence by less than one unit.
\<close>

theorem pointer_remainder_invariant:
  assumes "mouse_enabled cfg" and "mouse_motion cfg rx ry dt = Inr (dx, dy)"
  shows "(\<exists>sx sy ex ey. mouse_tick cfg True rx ry dt (px, py) = Inr ((sx, sy), (ex, ey))
            \<and> sx = py_round (px + dx) \<and> sy = py_round (py + dy)
            \<and> ex = px + dx - of_int sx \<and> ey = py + dy - of_int sy
            \<and> \<bar>ex\<bar> \<le> 1 / 2 \<and> \<bar>ey\<bar> \<le> 1 / 2)
       \<and> (\<exists>sents ex ey. mouse_run cfg rx ry dt K (0, 0) = Inr (sents, (ex, ey))
            \<and> length sents = K
            \<and> \<bar>ex\<bar> \<le> 1 / 2 \<and> \<bar>ey\<bar> \<le> 1 / 2
            \<and> \<bar>of_int (sum_list (map fst sents)) - of_nat K * dx\<bar> \<le> 1 / 2
            \<and> \<bar>of_int (sum_list (map snd sents)) - of_nat K * dy\<bar> \<le> 1 / 2)"
proof -
  let ?e = "mouse_emit (px, py) (dx, dy)"
  have t: "mouse_tick cfg True rx ry dt (px, py) = Inr (fst ?e, snd ?e)"
    using assms by (simp add: mouse_tick_def)
  have A: "\<exists>sx sy ex ey. mouse_tick cfg True rx ry dt (px, py) = Inr ((sx, sy), (ex, ey))
            \<and> sx = py_round (px + dx) \<and> sy = py_round (py + dy)
            \<and> ex = px + dx - of_int sx \<and> ey = py + dy - of_int sy
            \<and> \<bar>ex\<bar> \<le> 1 / 2 \<and> \<bar>ey\<bar> \<le> 1 / 2"
    using t mouse_emit_bound[of "(px, py)" "(dx, dy)"]
    by (simp add: mouse_emit_sent mouse_emit_rem)
  obtain sents rem' where r: "mouse_run cfg rx ry dt K (0, 0) = Inr (sents, rem')"
      and l: "length sents = K"
      and sx: "of_int (sum_list (map fst sents)) + fst rem' = of_nat K * dx"
      and sy: "of_int (sum_list (map snd sents)) + snd rem' = of_nat K * dy"
      and b: "0 < K \<longrightarrow> \<bar>fst rem'\<bar> \<le> 1 / 2 \<and> \<bar>snd rem'\<bar> \<le> 1 / 2"
    using mouse_run_constant[OF assms, of K "(0, 0)"] by auto
  have bound: "\<bar>fst rem'\<bar> \<le> 1 / 2 \<and> \<bar>snd rem'\<bar> \<le> 1 / 2"
  proof (cases K)
    case 0
    with r show ?thesis by auto
  next
    case (Suc n)
    with b show ?thesis by simp
  qed
  have "\<bar>of_int (sum_list (map fst sents)) - of_nat K * dx\<bar> = \<bar>fst rem'\<bar>"
    using sx by linarith
  moreover have "\<bar>of_int (sum_list (map snd sents)) - of_nat K * dy\<bar> = \<bar>snd rem'\<bar>"
    using sy by linarith
  ultimately have B: "\<exists>sents ex ey. mouse_run cfg rx ry dt K (0, 0) = Inr (sents, (ex, ey))
            \<and> length sents = K
            \<and> \<bar>ex\<bar> \<le> 1 / 2 \<and> \<bar>ey\<bar> \<le> 1 / 2
            \<and> \<bar>of_int (sum_list (map fst sents)) - of_nat K * dx\<bar> \<le> 1 / 2
            \<and> \<bar>of_int (sum_list (map snd sents)) - of_nat K * dy\<bar> \<le> 1 / 2"
    using r l bound by (cases rem') auto
  from A B show ?thesis by blast
qed

lemma default_mouse_enabled: "mouse_enabled default_config"
  by (simp add: default_config_def)

lemma mouse_motion_example: "mouse_motion default_config 1 0 (1 / 1000) = Inr (6 / 5, 0)"
  by (simp add: mouse_motion_def apply_deadzone_def default_config_def hypot_def py_div_def
      clamp_def Let_def)

lemma mouse_run_example: "mouse_run default_config 1 0 (1 / 1000) 3 (0, 0)
     = Inr ([(1, 0), (1, 0), (2, 0)], (- 2 / 5, 0))"
  by (simp add: eval_nat_numeral mouse_tick_def mouse_motion_example mouse_emit_def py_round_def
      Let_def default_mouse_enabled)

theorem pointer_remainder_invariant_witness:
  "mouse_enabled default_config
   \<and> mouse_motion default_config 1 0 (1 / 1000) = Inr (6 / 5, 0)
   \<and> mouse_tick default_config True 1 0 (1 / 1000) (0, 0) = Inr ((1, 0), (1 / 5, 0))
   \<and> mouse_run default_config 1 0 (1 / 1000) 3 (0, 0)
       = Inr ([(1, 0), (1, 0), (2, 0)], (- 2 / 5, 0))
   \<and> \<bar>of_int (sum_list (map fst [(1, 0), (1, 0), (2 :: int, 0 :: int)])) - of_nat 3 * (6 / 5)\<bar>
       \<le> (1 / 2 :: real)"
  using pointer_remainder_invariant
          [OF default_mouse_enabled mouse_motion_example, of 0 0 3]
    mouse_run_example
  by (simp add: mouse_tick_def mouse_motion_example mouse_emit_def py_round_def Let_def
      default_mouse_enabled)

section \<open>Shared state\<close>

lemma overlay_items_keys: "map fst (overlay_items attrs items) = map fst attrs"
proof (induction items arbitrary: attrs)
  case Nil
  show ?case by simp
next
  case (Cons kv items)
  obtain k v where kv: "kv = (k, v)" by (cases kv)
  have "map fst (setattr attrs k v) = map fst attrs" if "hasattr attrs k"
    using that by (auto simp add: setattr_def hasattr_def update_keys weak_map_of_SomeI
        dest!: map_of_SomeD intro: rev_image_eqI)
  with Cons.IH kv show ?case by simp
qed

lemma hasattr_keys: "hasattr attrs k \<longleftrightarrow> k \<in> set (map fst attrs)"
  by (simp add: hasattr_def map_of_eq_None_iff)

lemma overlay_items_snoc:
  "overlay_items attrs (items @ [(k, v)]) =
     (if hasattr (overlay_items attrs items) k
      then setattr (overlay_items attrs items) k v else overlay_items attrs items)"
  by (induction items arbitrary: attrs) auto

lemma overlay_items_lookup:
  "map_of (overlay_items attrs items) k =
     (if hasattr attrs k
      then (case map_of (rev items) k of Some v \<Rightarrow> Some v | None \<Rightarrow> map_of attrs k)
      else None)"
proof (induction items rule: rev_induct)
  case Nil
  show ?case by (simp add: hasattr_def)
next
  case (snoc kv items)
  obtain k' v' where kv: "kv = (k', v')" by (cases kv)
  have h: "hasattr (overlay_items attrs items) k' = hasattr attrs k'"
    by (simp add: hasattr_keys overlay_items_keys)
  show ?case
    using snoc.IH
    by (auto simp add: kv overlay_items_snoc h setattr_def update_conv' hasattr_def
        split: option.splits if_splits)
qed

text \<open>
  C3, as the code has it. \<^verbatim>\<open>update_and_save\<close> assigns each given field that is an
  attribute of the configuration (a later duplicate wins, other names are ignored, no
  attribute is added) and writes the full document. It leaves the cached text as it was.
  \<^verbatim>\<open>mark_saved\<close>, which every caller runs next, caches the text just written, and a reload
  of that text then changes nothing.
\<close>

theorem update_and_save_then_mark_saved:
  "map fst (self_cfg (fst (update_and_save dumps kwargs st))) = map fst (self_cfg st)
   \<and> (\<forall>k. map_of (self_cfg (fst (update_and_save dumps kwargs st))) k =
          (if hasattr (self_cfg st) k
           then (case map_of (rev kwargs) k of Some v \<Rightarrow> Some v | None \<Rightarrow> map_of (self_cfg st) k)
           else None))
   \<and> snd (update_and_save dumps kwargs st)
       = Some (dumps (self_cfg (fst (update_and_save dumps kwargs st))))
   \<and> last_saved_cfg_json (fst (update_and_save dumps kwargs st)) = last_saved_cfg_json st
   \<and> last_saved_cfg_json
         (mark_saved (fst (update_and_save dumps kwargs st)) (snd (update_and_save dumps kwargs st)))
       = Some (dumps (self_cfg (fst (update_and_save dumps kwargs st))))
   \<and> maybe_reload_from_disk inherited loads
         (mark_saved (fst (update_and_save dumps kwargs st)) (snd (update_and_save dumps kwargs st)))
         (snd (update_and_save dumps kwargs st))
       = (mark_saved (fst (update_and_save dumps kwargs st))
            (snd (update_and_save dumps kwargs st)), None)"
  by (simp add: update_and_save_def save_config_def mark_saved_def maybe_reload_from_disk_def
      Let_def overlay_items_keys overlay_items_lookup)

theorem update_and_save_then_mark_saved_witness:
  "hasattr (self_cfg (new_state default_config)) ''wrap_yaw''
   \<and> \<not> hasattr (self_cfg (new_state default_config)) ''colour''
   \<and> map_of (self_cfg (fst (update_and_save demo_dumps
           [(''wrap_yaw'', JBool False), (''colour'', JStr ''red'')] (new_state default_config))))
         ''wrap_yaw'' = Some (JBool False)
   \<and> map_of (self_cfg (fst (update_and_save demo_dumps
           [(''wrap_yaw'', JBool False), (''colour'', JStr ''red'')] (new_state default_config))))
         ''colour'' = None"
  using update_and_save_then_mark_saved
          [of demo_dumps "[(''wrap_yaw'', JBool False), (''colour'', JStr ''red'')]"
              "new_state default_config"]
  by (simp add: hasattr_def new_state_def config_dict_def)

text \<open>
  C3 as stated fails: after \<^verbatim>\<open>update_and_save\<close> alone, on the state that \<^verbatim>\<open>main\<close>
  builds, the cached text is still the document written before and differs from the
  document written now.
\<close>

theorem update_and_save_cache_counterexample:
  "last_saved_cfg_json
     (fst (update_and_save demo_dumps [(''wrap_yaw'', JBool False)]
        (mark_saved (new_state default_config)
           (save_config demo_dumps (config_dict default_config)))))
   \<noteq> snd (update_and_save demo_dumps [(''wrap_yaw'', JBool False)]
        (mark_saved (new_state default_config)
           (save_config demo_dumps (config_dict default_config))))"
  by (simp add: update_and_save_def mark_saved_def save_config_def new_state_def Let_def
      config_dict_def default_config_def hasattr_def setattr_def demo_dumps_def)

lemma overlay_document_fields:
  assumes "\<forall>k \<in> set (map fst items).
             \<not> inherited k \<and> k \<noteq> ''__class__'' \<and> k \<noteq> ''__dict__'' \<and> k \<noteq> ''__weakref__''"
  shows "overlay_document inherited attrs items = (overlay_items attrs items, None)"
  using assms
proof (induction items arbitrary: attrs)
  case Nil
  show ?case by simp
next
  case (Cons kv items)
  obtain k v where kv: "kv = (k, v)" by (cases kv)
  from Cons.prems kv have k: "\<not> inherited k" "k \<noteq> ''__class__''" "k \<noteq> ''__dict__''"
    "k \<noteq> ''__weakref__''" by simp_all
  from Cons.prems have rest: "\<forall>k \<in> set (map fst items).
      \<not> inherited k \<and> k \<noteq> ''__class__'' \<and> k \<noteq> ''__dict__'' \<and> k \<noteq> ''__weakref__''"
    by simp
  show ?case
    using k Cons.IH[OF rest]
    by (simp add: kv py_hasattr_def py_setattr_def hasattr_def setattr_def)
qed

lemma maybe_reload_malformed:
  "maybe_reload_from_disk inherited loads st None = (st, None)
   \<and> (loads txt = None \<longrightarrow> maybe_reload_from_disk inherited loads st (Some txt) = (st, None))"
  by (simp add: maybe_reload_from_disk_def)

lemma maybe_reload_fields:
  assumes "Some txt \<noteq> last_saved_cfg_json st" and "loads txt = Some (JObj items)"
    and "\<forall>k \<in> set (map fst items).
           \<not> inherited k \<and> k \<noteq> ''__class__'' \<and> k \<noteq> ''__dict__'' \<and> k \<noteq> ''__weakref__''"
  shows "maybe_reload_from_disk inherited loads st (Some txt)
           = (st\<lparr>self_cfg := overlay_items (self_cfg st) items,
                 last_saved_cfg_json := Some txt\<rparr>, None)"
  using assms(1,2) by (simp add: maybe_reload_from_disk_def overlay_document_fields[OF assms(3)])

lemma overlay_document_adds:
  assumes "inherited k" and "map_of attrs k = None"
    and "k \<noteq> ''__class__''" "k \<noteq> ''__dict__''" "k \<noteq> ''__weakref__''"
  shows "overlay_document inherited attrs [(k, v)] = (AList.update k v attrs, None)
         \<and> map_of (AList.update k v attrs) k = Some v"
  using assms by (simp add: py_hasattr_def py_setattr_def update_conv')

text \<open>
  C7. The reload ignores a document that cannot be read or is not valid JSON, and it
  ignores a key that names no attribute at all. But its test \<^verbatim>\<open>hasattr(self.cfg, k)\<close>
  also holds for names that are not fields of the configuration. On the state that
  \<^verbatim>\<open>main\<close> builds, the document with the keys \<^verbatim>\<open>wrap_yaw\<close>, \<^verbatim>\<open>__class__\<close> and
  \<^verbatim>\<open>poll_hz\<close>, in this order, assigns \<^verbatim>\<open>wrap_yaw\<close>, then raises \<^verbatim>\<open>TypeError\<close> out of
  \<^verbatim>\<open>maybe_reload_from_disk\<close>: the unknown key is not ignored, \<^verbatim>\<open>poll_hz\<close> is not
  overlaid, and the text is not cached, so the next call does the same. This holds
  whatever names the class provides. Where \<^verbatim>\<open>__doc__\<close> resolves on the class, as it does
  for every Python class, the document with the one key \<^verbatim>\<open>__doc__\<close> adds an attribute
  of that name to the configuration.
\<close>

theorem maybe_reload_inherited_name:
  "maybe_reload_from_disk inherited demo_loads (new_state default_config)
       (Some ''{wrap_yaw: false, __class__: 1, poll_hz: 60}'')
     = (\<lparr> self_cfg = AList.update ''wrap_yaw'' (JBool False) (config_dict default_config),
          last_saved_cfg_json = None \<rparr>, Some TypeError)
   \<and> map_of (config_dict default_config) ''__doc__'' = None
   \<and> map_of (self_cfg (fst (maybe_reload_from_disk (\<lambda>k. k = ''__doc__'') demo_loads
              (new_state default_config) (Some ''{__doc__: x}'')))) ''__doc__''
       = Some (JStr ''x'')"
  by (simp add: maybe_reload_from_disk_def demo_loads_def new_state_def py_hasattr_def
      py_setattr_def config_dict_def)

section \<open>Reading calibrated controls\<close>

text \<open>
  C10. For every calibration map and device state: when the control has no binding,
  \<^verbatim>\<open>read_cal_button\<close> returns \<open>False\<close> and \<^verbatim>\<open>read_cal_trigger\<close> returns 0; the same
  when the binding's type is not the matching one, when its index converts to a negative
  integer, and when it has no index.
\<close>

theorem read_cal_uncalibrated:
  "(map_of cal key = None \<longrightarrow>
      read_cal_button int_of_str js cal key = Inr False
      \<and> read_cal_trigger int_of_str js cal key = Inr 0)
   \<and> (map_of cal key = Some (JObj info) \<and> map_of info ''type'' \<noteq> Some (JStr ''button'') \<longrightarrow>
        read_cal_button int_of_str js cal key = Inr False)
   \<and> (map_of cal key = Some (JObj info) \<and> map_of info ''type'' \<noteq> Some (JStr ''axis'') \<longrightarrow>
        read_cal_trigger int_of_str js cal key = Inr 0)
   \<and> (map_of cal key = Some (JObj info)
        \<and> py_int int_of_str (dict_get info ''index'' (JInt (- 1))) = Inr i \<and> i < 0 \<longrightarrow>
        read_cal_button int_of_str js cal key = Inr False
        \<and> read_cal_trigger int_of_str js cal key = Inr 0)
   \<and> (map_of cal key = Some (JObj info) \<and> map_of info ''index'' = None \<longrightarrow>
        read_cal_button int_of_str js cal key = Inr False
        \<and> read_cal_trigger int_of_str js cal key = Inr 0)"
  by (simp add: read_cal_button_def read_cal_trigger_def dict_get_def py_int_def Let_def)

theorem read_cal_uncalibrated_witness:
  "read_cal_button (\<lambda>s. None) \<lparr> js_buttons = [True], js_axes = [1], js_hats = [] \<rparr> [] ''l3'' = Inr False
   \<and> read_cal_trigger (\<lambda>s. None) \<lparr> js_buttons = [True], js_axes = [1], js_hats = [] \<rparr> [] ''l2_lt'' = Inr 0
   \<and> read_cal_button (\<lambda>s. None) \<lparr> js_buttons = [True], js_axes = [1], js_hats = [] \<rparr>
        [(''l3'', JObj [(''type'', JStr ''none'')])] ''l3'' = Inr False
   \<and> read_cal_trigger (\<lambda>s. None) \<lparr> js_buttons = [True], js_axes = [1], js_hats = [] \<rparr>
        [(''l2_lt'', JObj [(''type'', JStr ''button''), (''index'', JInt 0)])] ''l2_lt'' = Inr 0
   \<and> read_cal_button (\<lambda>s. None) \<lparr> js_buttons = [True], js_axes = [1], js_hats = [] \<rparr>
        [(''l3'', JObj [(''type'', JStr ''button''), (''index'', JInt (- 1))])] ''l3'' = Inr False
   \<and> read_cal_button (\<lambda>s. None) \<lparr> js_buttons = [True], js_axes = [1], js_hats = [] \<rparr>
        [(''l3'', JObj [(''type'', JStr ''button''), (''index'', JInt 0)])] ''l3'' = Inr True"
  using read_cal_uncalibrated
          [of "[]" "''l3''" "\<lambda>s. None" "\<lparr> js_buttons = [True], js_axes = [1], js_hats = [] \<rparr>"]
        read_cal_uncalibrated
          [of "[(''l3'', JObj [(''type'', JStr ''none'')])]" "''l3''" "\<lambda>s. None"
              "\<lparr> js_buttons = [True], js_axes = [1], js_hats = [] \<rparr>"
              "[(''type'', JStr ''none'')]"]
  by (simp add: read_cal_button_def read_cal_trigger_def dict_get_def py_int_def get_button_def
      Let_def)

section \<open>Calibration wizard\<close>

lemma steadyI:
  assumes "\<And>pre post. f pre = Blocked \<Longrightarrow> f (pre @ Interrupt # post) = Cancelled"
    and "\<And>pre a rest xs. f pre = Done a rest \<Longrightarrow> f (pre @ xs) = Done a (rest @ xs)"
  shows "steady f"
  using assms unfolding steady_def by blast

lemma steady_Blocked: "steady f \<Longrightarrow> f pre = Blocked \<Longrightarrow> f (pre @ Interrupt # post) = Cancelled"
  unfolding steady_def by blast

lemma steady_Done: "steady f \<Longrightarrow> f pre = Done a rest \<Longrightarrow> f (pre @ xs) = Done a (rest @ xs)"
  unfolding steady_def by blast

lemma steady_return: "steady (\<lambda>evs. Done a evs)"
  by (rule steadyI) simp_all

lemma steady_raise: "steady (\<lambda>evs. Raised e)"
  by (rule steadyI) simp_all

lemma steady_seq:
  assumes f: "steady f" and g: "\<And>a. steady (g a)"
  shows "steady (\<lambda>evs. seq (f evs) g)"
proof (rule steadyI)
  fix pre post
  assume b: "seq (f pre) g = Blocked"
  show "seq (f (pre @ Interrupt # post)) g = Cancelled"
  proof (cases "f pre")
    case (Done a rest)
    with b have "g a rest = Blocked" by (simp add: seq_def)
    then have "g a (rest @ Interrupt # post) = Cancelled" by (rule steady_Blocked[OF g])
    moreover have "f (pre @ Interrupt # post) = Done a (rest @ Interrupt # post)"
      using f Done by (rule steady_Done)
    ultimately show ?thesis by (simp add: seq_def)
  next
    case Blocked
    then have "f (pre @ Interrupt # post) = Cancelled" by (rule steady_Blocked[OF f])
    then show ?thesis by (simp add: seq_def)
  qed (use b in \<open>simp_all add: seq_def\<close>)
next
  fix pre a rest xs
  assume d: "seq (f pre) g = Done a rest"
  show "seq (f (pre @ xs)) g = Done a (rest @ xs)"
  proof (cases "f pre")
    case (Done a' rest')
    with d have "g a' rest' = Done a rest" by (simp add: seq_def)
    then have "g a' (rest' @ xs) = Done a (rest @ xs)" by (rule steady_Done[OF g])
    moreover have "f (pre @ xs) = Done a' (rest' @ xs)" using f Done by (rule steady_Done)
    ultimately show ?thesis by (simp add: seq_def)
  qed (use d in \<open>simp_all add: seq_def\<close>)
qed

lemma steady_wait_for_buttons_released: "steady wait_for_buttons_released"
proof (rule steadyI)
  fix pre post
  show "wait_for_buttons_released pre = Blocked \<Longrightarrow>
        wait_for_buttons_released (pre @ Interrupt # post) = Cancelled"
    by (induction pre rule: wait_for_buttons_released.induct) (auto split: if_splits)
next
  fix pre a rest xs
  show "wait_for_buttons_released pre = Done a rest \<Longrightarrow>
        wait_for_buttons_released (pre @ xs) = Done a (rest @ xs)"
    by (induction pre rule: wait_for_buttons_released.induct) (auto split: if_splits)
qed

lemma steady_detect_first_button_press: "steady detect_first_button_press"
proof (rule steadyI)
  fix pre post
  show "detect_first_button_press pre = Blocked \<Longrightarrow>
        detect_first_button_press (pre @ Interrupt # post) = Cancelled"
    by (induction pre rule: detect_first_button_press.induct) (auto split: option.splits)
next
  fix pre a rest xs
  show "detect_first_button_press pre = Done a rest \<Longrightarrow>
        detect_first_button_press (pre @ xs) = Done a (rest @ xs)"
    by (induction pre rule: detect_first_button_press.induct) (auto split: option.splits)
qed

lemma steady_detect_hat_direction: "steady detect_hat_direction"
proof (rule steadyI)
  fix pre post
  show "detect_hat_direction pre = Blocked \<Longrightarrow>
        detect_hat_direction (pre @ Interrupt # post) = Cancelled"
    by (induction pre rule: detect_hat_direction.induct)
      (auto split: if_splits sum.splits prod.splits)
next
  fix pre a rest xs
  show "detect_hat_direction pre = Done a rest \<Longrightarrow>
        detect_hat_direction (pre @ xs) = Done a (rest @ xs)"
    by (induction pre rule: detect_hat_direction.induct)
      (auto split: if_splits sum.splits prod.splits)
qed

lemma steady_wait_hat_centered: "steady (wait_hat_centered int_of_str hat_index)"
proof (rule steadyI)
  fix pre post
  show "wait_hat_centered int_of_str hat_index pre = Blocked \<Longrightarrow>
        wait_hat_centered int_of_str hat_index (pre @ Interrupt # post) = Cancelled"
    by (induction int_of_str hat_index pre rule: wait_hat_centered.induct)
      (auto split: if_splits sum.splits prod.splits)
next
  fix pre a rest xs
  show "wait_hat_centered int_of_str hat_index pre = Done a rest \<Longrightarrow>
        wait_hat_centered int_of_str hat_index (pre @ xs) = Done a (rest @ xs)"
    by (induction int_of_str hat_index pre rule: wait_hat_centered.induct)
      (auto split: if_splits sum.splits prod.splits)
qed

lemma steady_wait_for_axis_near: "steady (wait_for_axis_near axis_index rest_value eps)"
proof (rule steadyI)
  fix pre post
  show "wait_for_axis_near axis_index rest_value eps pre = Blocked \<Longrightarrow>
        wait_for_axis_near axis_index rest_value eps (pre @ Interrupt # post) = Cancelled"
    by (induction axis_index rest_value eps pre rule: wait_for_axis_near.induct)
      (auto split: if_splits sum.splits)
next
  fix pre a rest xs
  show "wait_for_axis_near axis_index rest_value eps pre = Done a rest \<Longrightarrow>
        wait_for_axis_near axis_index rest_value eps (pre @ xs) = Done a (rest @ xs)"
    by (induction axis_index rest_value eps pre rule: wait_for_axis_near.induct)
      (auto split: if_splits sum.splits)
qed

lemma steady_detect_trigger_loop: "steady (detect_trigger_loop min_delta rest0)"
proof (rule steadyI)
  fix pre post
  show "detect_trigger_loop min_delta rest0 pre = Blocked \<Longrightarrow>
        detect_trigger_loop min_delta rest0 (pre @ Interrupt # post) = Cancelled"
    by (induction min_delta rest0 pre rule: detect_trigger_loop.induct)
      (auto simp add: Let_def split: if_splits)
next
  fix pre a rest xs
  show "detect_trigger_loop min_delta rest0 pre = Done a rest \<Longrightarrow>
        detect_trigger_loop min_delta rest0 (pre @ xs) = Done a (rest @ xs)"
    by (induction min_delta rest0 pre rule: detect_trigger_loop.induct)
      (auto simp add: Let_def split: if_splits)
qed

lemma steady_detect_axis_loop: "steady (detect_axis_loop min_delta rest0)"
proof (rule steadyI)
  fix pre post
  show "detect_axis_loop min_delta rest0 pre = Blocked \<Longrightarrow>
        detect_axis_loop min_delta rest0 (pre @ Interrupt # post) = Cancelled"
    by (induction min_delta rest0 pre rule: detect_axis_loop.induct)
      (auto simp add: Let_def split: if_splits)
next
  fix pre a rest xs
  show "detect_axis_loop min_delta rest0 pre = Done a rest \<Longrightarrow>
        detect_axis_loop min_delta rest0 (pre @ xs) = Done a (rest @ xs)"
    by (induction min_delta rest0 pre rule: detect_axis_loop.induct)
      (auto simp add: Let_def split: if_splits)
qed

lemma steady_first_pump:
  assumes "\<And>js. steady (g js)"
  shows "steady (\<lambda>evs. case evs of [] \<Rightarrow> Blocked | Interrupt # evs \<Rightarrow> Cancelled
                        | Pump js # evs \<Rightarrow> g js evs)"
proof (rule steadyI)
  fix pre post
  assume "(case pre of [] \<Rightarrow> Blocked | Interrupt # evs \<Rightarrow> Cancelled | Pump js # evs \<Rightarrow> g js evs)
            = Blocked"
  then show "(case pre @ Interrupt # post of [] \<Rightarrow> Blocked | Interrupt # evs \<Rightarrow> Cancelled
              | Pump js # evs \<Rightarrow> g js evs) = Cancelled"
    using steady_Blocked[OF assms] by (auto split: list.splits event.splits)
next
  fix pre a rest xs
  assume "(case pre of [] \<Rightarrow> Blocked | Interrupt # evs \<Rightarrow> Cancelled | Pump js # evs \<Rightarrow> g js evs)
            = Done a rest"
  then show "(case pre @ xs of [] \<Rightarrow> Blocked | Interrupt # evs \<Rightarrow> Cancelled
              | Pump js # evs \<Rightarrow> g js evs) = Done a (rest @ xs)"
    using steady_Done[OF assms] by (auto split: list.splits event.splits)
qed

lemma steady_detect_trigger_axis: "steady (detect_trigger_axis min_delta)"
  using steady_first_pump[of "\<lambda>js. detect_trigger_loop min_delta (js_axes js)"]
  by (simp add: steady_detect_trigger_loop detect_trigger_axis_def[abs_def])

lemma steady_detect_axis_by_moving: "steady (detect_axis_by_moving min_delta)"
  using steady_first_pump[of "\<lambda>js. detect_axis_loop min_delta (js_axes js)"]
  by (simp add: steady_detect_axis_loop detect_axis_by_moving_def[abs_def])

lemma steady_sum_case:
  assumes "\<And>v. steady (g v)"
  shows "steady (\<lambda>evs. case r of Inl e \<Rightarrow> Raised e | Inr v \<Rightarrow> g v evs)"
  using assms by (cases r) (simp_all add: steady_raise)

lemma steady_if:
  "steady f \<Longrightarrow> steady g \<Longrightarrow> steady (\<lambda>evs. if c then f evs else g evs)"
  by (cases c) simp_all

lemma steady_prod_case:
  assumes "\<And>a b. steady (g a b)"
  shows "steady (case p of (a, b) \<Rightarrow> g a b)"
  using assms by (cases p) simp

lemma steady_probe_sticks: "steady (probe_sticks keys stick_axes)"
proof (induction keys arbitrary: stick_axes)
  case Nil
  show ?case using steady_return by (simp add: steady_def)
next
  case (Cons key keys)
  have "steady (\<lambda>evs. seq (detect_axis_by_moving 0.45 evs) (\<lambda>(axis_i, sign, rest_val) evs.
     seq (wait_for_axis_near axis_i rest_val 0.20 evs) (\<lambda>_ evs.
     probe_sticks keys
       (AList.update key
          (JObj [(''axis'', JInt axis_i), (''sign'', JInt sign), (''rest'', JFloat rest_val)])
          stick_axes)
       evs)))"
    by (intro steady_seq steady_detect_axis_by_moving)
      (auto intro!: steady_seq steady_wait_for_axis_near Cons.IH)
  then show ?case by (simp add: steady_def)
qed

lemma steady_calibrate_sticks: "steady (calibrate_sticks int_of_str cfg cal)"
  unfolding calibrate_sticks_def[abs_def]
  by (intro steady_seq steady_wait_for_buttons_released steady_probe_sticks steady_sum_case
      steady_return)

lemma steady_calibrate_step: "steady (calibrate_step int_of_str key cal)"
  unfolding calibrate_step_def[abs_def]
  by (intro steady_seq steady_if steady_prod_case steady_wait_for_buttons_released
      steady_detect_first_button_press steady_detect_hat_direction steady_wait_hat_centered
      steady_detect_trigger_axis steady_wait_for_axis_near steady_return)

lemma steady_run_steps: "steady (run_steps int_of_str keys cal)"
proof (induction keys arbitrary: cal)
  case Nil
  show ?case using steady_return by (simp add: steady_def)
next
  case (Cons key keys)
  have "steady (\<lambda>evs. seq (calibrate_step int_of_str key cal evs)
                  (\<lambda>cal evs. run_steps int_of_str keys cal evs))"
    by (intro steady_seq steady_calibrate_step Cons.IH)
  then show ?case by (simp add: steady_def)
qed

lemma steady_calibration_probes: "steady (calibration_probes int_of_str js cfg)"
  unfolding calibration_probes_def[abs_def] Let_def
  by (intro steady_seq steady_wait_for_buttons_released steady_calibrate_sticks)
    (auto intro!: steady_seq steady_run_steps steady_return)

lemma calibrate_step_updates:
  "calibrate_step int_of_str key cal evs = Done cal' rest \<Longrightarrow> \<exists>v. cal' = AList.update key v cal"
  by (auto simp add: calibrate_step_def seq_def split: outcome.splits if_splits prod.splits)

lemma keys_update: "fst ` set (AList.update k v al) = insert k (fst ` set al)"
  by (simp add: dom_update)

lemma run_steps_keys:
  "run_steps int_of_str keys cal evs = Done cal' rest \<Longrightarrow>
     set keys \<union> fst ` set cal \<subseteq> fst ` set cal'"
proof (induction keys arbitrary: cal evs)
  case Nil
  then show ?case by simp
next
  case (Cons key keys)
  from Cons.prems obtain cal1 evs1 where
    1: "calibrate_step int_of_str key cal evs = Done cal1 evs1"
    and 2: "run_steps int_of_str keys cal1 evs1 = Done cal' rest"
    by (auto simp add: seq_def split: outcome.splits)
  from 1 obtain v where "cal1 = AList.update key v cal"
    using calibrate_step_updates by blast
  then have "fst ` set cal1 = insert key (fst ` set cal)" by (simp add: keys_update)
  with Cons.IH[OF 2] show ?case by auto
qed

lemma calibration_probes_keys:
  "calibration_probes int_of_str js cfg evs = Done (cfg', cal') rest \<Longrightarrow>
     set steps \<subseteq> fst ` set cal'"
  by (auto simp add: calibration_probes_def Let_def seq_def split: outcome.splits prod.splits
      dest!: run_steps_keys)

lemmas demo_simps =
  eval_nat_numeral seq_def stick_int_def py_int_def detect_axis_by_moving_def
  detect_trigger_axis_def best_index_def Let_def get_axis_def get_button_def get_hat_def
  any_button_pressed_def pad_idle_def pad_moved_def pad_pressed_def trigger_mode_of_rest_def
  dict_get_def

lemma demo_sticks:
  "probe_sticks [''lx'', ''ly'', ''rx'', ''ry''] []
     (Pump pad_idle # Pump pad_moved # Pump pad_idle #
      Pump pad_idle # Pump pad_moved # Pump pad_idle #
      Pump pad_idle # Pump pad_moved # Pump pad_idle #
      Pump pad_idle # Pump pad_moved # Pump pad_idle # evs)
   = Done [(''lx'', JObj [(''axis'', JInt 0), (''sign'', JInt 1), (''rest'', JFloat 0)]),
           (''ly'', JObj [(''axis'', JInt 0), (''sign'', JInt 1), (''rest'', JFloat 0)]),
           (''rx'', JObj [(''axis'', JInt 0), (''sign'', JInt 1), (''rest'', JFloat 0)]),
           (''ry'', JObj [(''axis'', JInt 0), (''sign'', JInt 1), (''rest'', JFloat 0)])] evs"
  by (simp add: demo_simps)

lemma demo_button_step:
  "key \<in> button_keys \<or> key \<in> dpad_keys \<and> map_of cal ''dpad_mode'' = Some (JStr ''buttons'') \<Longrightarrow>
   calibrate_step int_of_str key cal (Pump pad_idle # Pump pad_pressed # Pump pad_idle # evs)
   = Done (AList.update key (JObj [(''type'', JStr ''button''), (''index'', JInt 0)]) cal) evs"
  by (auto simp add: calibrate_step_def demo_simps)

lemma demo_trigger_step:
  "key \<in> trigger_keys \<Longrightarrow> key \<notin> button_keys \<Longrightarrow> key \<notin> dpad_keys \<Longrightarrow>
   calibrate_step int_of_str key cal
     (Pump pad_idle # Pump pad_idle # Pump pad_moved # Pump pad_idle # evs)
   = Done (AList.update key
             (JObj [(''type'', JStr ''axis''), (''index'', JInt 0),
                    (''mode'', JStr ''zero_to_1''), (''rest'', JFloat 0)]) cal) evs"
  by (simp add: calibrate_step_def demo_simps)

lemma demo_session_completes:
  "\<exists>cfg'. calibrate_controller int_of_str dumps pad_idle default_config disk demo_session
           = (Done cfg' [], Some (dumps (config_dict cfg')))
         \<and> calibrated cfg'
         \<and> map_of (calibration cfg') ''l2_lt''
             = Some (JObj [(''type'', JStr ''axis''), (''index'', JInt 0),
                           (''mode'', JStr ''zero_to_1''), (''rest'', JFloat 0)])"
proof -
  have hats: "length (js_hats pad_idle) = 0" by (simp add: pad_idle_def)
  have rel: "\<And>evs. wait_for_buttons_released (Pump pad_idle # evs) = Done () evs"
    by (simp add: any_button_pressed_def pad_idle_def get_button_def)
  show ?thesis
    unfolding calibrate_controller_def calibration_probes_def calibrate_sticks_def demo_session_def
      Let_def hats
    by (simp add: eval_nat_numeral rel demo_sticks demo_button_step demo_trigger_step seq_def
        steps_def button_keys_def dpad_keys_def trigger_keys_def stick_int_def py_int_def
        save_config_def update_conv'
        del: wait_for_buttons_released.simps probe_sticks.simps)
qed

lemma demo_blocked:
  "fst (calibrate_controller int_of_str dumps pad_idle default_config disk [Pump pad_idle]) = Blocked"
  by (simp add: calibrate_controller_def calibration_probes_def calibrate_sticks_def seq_def
      any_button_pressed_def pad_idle_def get_button_def Let_def)

text \<open>
  C8. An interrupt that arrives while the wizard is still blocked on a prompt cancels
  it and leaves the persisted document as it was; the same holds for the calibration
  phase of \<^verbatim>\<open>main\<close>. The wizard completes only with the document written from a
  configuration that has the calibrated flag set and holds a binding for each of the
  sixteen prompts; in every other outcome the document is unchanged.
\<close>

theorem calibration_persists_only_on_completion:
  "(fst (calibrate_controller int_of_str dumps js cfg disk pre) = Blocked \<longrightarrow>
      calibrate_controller int_of_str dumps js cfg disk (pre @ Interrupt # post) = (Cancelled, disk))
   \<and> (\<forall>cfg' rest. fst (calibrate_controller int_of_str dumps js cfg disk evs) = Done cfg' rest \<longrightarrow>
         snd (calibrate_controller int_of_str dumps js cfg disk evs)
           = Some (dumps (config_dict cfg'))
         \<and> calibrated cfg' \<and> set steps \<subseteq> fst ` set (calibration cfg'))
   \<and> ((\<forall>cfg' rest. fst (calibrate_controller int_of_str dumps js cfg disk evs) \<noteq> Done cfg' rest) \<longrightarrow>
         snd (calibrate_controller int_of_str dumps js cfg disk evs) = disk)
   \<and> (fst (main_calibration int_of_str dumps recalibrate js cfg disk pre) = Blocked \<longrightarrow>
         main_calibration int_of_str dumps recalibrate js cfg disk (pre @ Interrupt # post)
           = (Cancelled, disk))"
proof -
  let ?p = "calibration_probes int_of_str js cfg"
  have a: "calibrate_controller int_of_str dumps js cfg disk (pre @ Interrupt # post)
             = (Cancelled, disk)"
    if "fst (calibrate_controller int_of_str dumps js cfg disk pre) = Blocked"
  proof -
    from that have "?p pre = Blocked"
      by (auto simp add: calibrate_controller_def Let_def split: outcome.splits prod.splits)
    then have "?p (pre @ Interrupt # post) = Cancelled"
      by (rule steady_Blocked[OF steady_calibration_probes])
    then show ?thesis by (simp add: calibrate_controller_def)
  qed
  have b: "snd (calibrate_controller int_of_str dumps js cfg disk evs)
             = Some (dumps (config_dict cfg'))
           \<and> calibrated cfg' \<and> set steps \<subseteq> fst ` set (calibration cfg')"
    if "fst (calibrate_controller int_of_str dumps js cfg disk evs) = Done cfg' rest" for cfg' rest
    using that calibration_probes_keys[of int_of_str js cfg evs]
    by (auto simp add: calibrate_controller_def Let_def save_config_def
        split: outcome.splits prod.splits)
  have c: "snd (calibrate_controller int_of_str dumps js cfg disk evs) = disk"
    if "\<forall>cfg' rest. fst (calibrate_controller int_of_str dumps js cfg disk evs) \<noteq> Done cfg' rest"
    using that
    by (auto simp add: calibrate_controller_def Let_def split: outcome.splits prod.splits)
  have d: "main_calibration int_of_str dumps recalibrate js cfg disk (pre @ Interrupt # post)
             = (Cancelled, disk)"
    if "fst (main_calibration int_of_str dumps recalibrate js cfg disk pre) = Blocked"
    using that a by (simp add: main_calibration_def split: if_splits)
  from a b c d show ?thesis by blast
qed

theorem calibration_persists_only_on_completion_witness:
  "fst (calibrate_controller (\<lambda>s. None) demo_dumps pad_idle default_config (Some ''old'')
          [Pump pad_idle]) = Blocked
   \<and> calibrate_controller (\<lambda>s. None) demo_dumps pad_idle default_config (Some ''old'')
          ([Pump pad_idle] @ Interrupt # []) = (Cancelled, Some ''old'')
   \<and> main_calibration (\<lambda>s. None) demo_dumps False pad_idle default_config (Some ''old'')
          ([Pump pad_idle] @ Interrupt # []) = (Cancelled, Some ''old'')
   \<and> (\<exists>cfg'. calibrate_controller (\<lambda>s. None) demo_dumps pad_idle default_config (Some ''old'')
                 demo_session = (Done cfg' [], Some (demo_dumps (config_dict cfg')))
              \<and> calibrated cfg')"
  using calibration_persists_only_on_completion
          [of "\<lambda>s. None" demo_dumps pad_idle default_config "Some ''old''" "[Pump pad_idle]" "[]"
              _ False]
    demo_blocked [of "\<lambda>s. None" demo_dumps "Some ''old''"]
    demo_session_completes [of "\<lambda>s. None" demo_dumps "Some ''old''"]
  by (auto simp add: main_calibration_def default_config_def)

end
